theory Spec2Isabelle
  imports Complex_Main
begin

section \<open>Google Drive Manager: retry policy, upsert reconciler and folder sync\<close>

text \<open>
  A shallow embedding of \<^verbatim>\<open>src/google_drive_manager/drive_api.py\<close>.

  \<^item> Python exceptions are values of the type \<open>exc\<close>; a call that may raise returns
    \<open>exc + 'a\<close>, with \<open>Inl\<close> for the exception.
  \<^item> Everything outside the module is a field of the record \<open>env\<close>: the \<^verbatim>\<open>service\<close>
    handle with the client library (one field per request the module builds and executes),
    the \<^verbatim>\<open>pathlib\<close> queries on the local file system, and the values drawn by
    \<^verbatim>\<open>random.random()\<close>. The local file system does not change during a call.
  \<^item> Effects are threaded through the record \<open>world\<close>: the state of the remote store behind
    the service handle, the number of random draws made, and a trace of events.
  \<^item> The Python floats of the backoff computation are real numbers, and every floating-point
    operation on them rounds its exact result, with a relative error the environment gives.
  \<^item> Log lines (\<^verbatim>\<open>_log_event\<close>, \<^verbatim>\<open>logger.debug\<close>, \<^verbatim>\<open>logger.warning\<close>) do not influence
    control flow or results. Only the first line of each remote operation
    (\<^verbatim>\<open>"<operation>:start"\<close>) is kept, as the trace event \<open>Start\<close>.
\<close>

subsection \<open>Exceptions, dictionaries, events\<close>

datatype exc =
    DriveAPIError string "exc option"  \<comment> \<open>message and \<^verbatim>\<open>__cause__\<close> (\<^verbatim>\<open>raise ... from ...\<close>)\<close>
  | KeyError string                    \<comment> \<open>a missing dictionary key\<close>
  | ValueError string                  \<comment> \<open>\<^verbatim>\<open>time.sleep\<close> called with a negative duration\<close>
  | OverflowError string               \<comment> \<open>\<^verbatim>\<open>time.sleep\<close> called with a duration out of range\<close>
  | ExternalError string               \<comment> \<open>any other exception, raised by the client library,
                                           the remote store or a caller-supplied filter\<close>

text \<open>A metadata or result dictionary with string values, in insertion order.\<close>

type_synonym dict = "(string \<times> string) list"

text \<open>The remote operations of the module, with the arguments their start line logs.\<close>

datatype call =
    List_files "string option" nat        \<comment> \<open>\<^verbatim>\<open>q\<close>, \<^verbatim>\<open>page_size\<close>\<close>
  | Upload_file string "string option"    \<comment> \<open>\<^verbatim>\<open>local_path\<close>, \<^verbatim>\<open>parent_id\<close>\<close>
  | Update_file string string             \<comment> \<open>\<^verbatim>\<open>file_id\<close>, \<^verbatim>\<open>local_path\<close>\<close>
  | Create_folder string "string option"  \<comment> \<open>\<^verbatim>\<open>name\<close>, \<^verbatim>\<open>parent_id\<close>\<close>
  | Delete_file string                    \<comment> \<open>\<^verbatim>\<open>file_id\<close>\<close>

datatype event =
    Start call            \<comment> \<open>the body of the operation was entered (one attempt)\<close>
  | Request call          \<comment> \<open>the body reached the client library and executed its request\<close>
  | Sleep nat real real   \<comment> \<open>after failed attempt \<open>n\<close>: the value of \<^verbatim>\<open>backoff\<close> the sleep time
                              was computed from, and the argument given to \<^verbatim>\<open>time.sleep\<close>\<close>

fun mutating :: "call \<Rightarrow> bool" where
  "mutating (List_files q n) = False"
| "mutating (Upload_file p parent) = True"
| "mutating (Update_file fid p) = True"
| "mutating (Create_folder name parent) = True"
| "mutating (Delete_file fid) = True"

fun mutating_event :: "event \<Rightarrow> bool" where
  "mutating_event (Start c) = mutating c"
| "mutating_event (Request c) = mutating c"
| "mutating_event (Sleep n b d) = False"

fun is_sleep :: "event \<Rightarrow> bool" where
  "is_sleep (Sleep n b d) = True"
| "is_sleep (Start c) = False"
| "is_sleep (Request c) = False"

text \<open>How often the body of operation \<open>c\<close> was entered, and how many sleeps were taken.\<close>

definition starts :: "call \<Rightarrow> event list \<Rightarrow> nat" where
  "starts c tr = length (filter (\<lambda>e. e = Start c) tr)"

definition requests :: "call \<Rightarrow> event list \<Rightarrow> nat" where
  "requests c tr = length (filter (\<lambda>e. e = Request c) tr)"

definition nsleeps :: "event list \<Rightarrow> nat" where
  "nsleeps tr = length (filter is_sleep tr)"

subsection \<open>The environment and the world\<close>

record 's env =
  path_exists :: "string \<Rightarrow> bool"           \<comment> \<open>\<^verbatim>\<open>Path(p).exists()\<close>\<close>
  path_is_dir :: "string \<Rightarrow> bool"           \<comment> \<open>\<^verbatim>\<open>Path(p).is_dir()\<close>\<close>
  path_name :: "string \<Rightarrow> string"           \<comment> \<open>\<^verbatim>\<open>Path(p).name\<close>\<close>
  rglob_sorted :: "string \<Rightarrow> string list"   \<comment> \<open>\<^verbatim>\<open>sorted(Path(d).rglob("*"))\<close>, each as \<^verbatim>\<open>str(p)\<close>;
                                                the enumeration itself does not fail\<close>
  random_draw :: "nat \<Rightarrow> real"               \<comment> \<open>the value of the \<open>i\<close>-th \<^verbatim>\<open>random.random()\<close>\<close>
  rounding_error :: "real \<Rightarrow> real"            \<comment> \<open>the relative error of rounding an exact result
                                                to the nearest double\<close>
  files_list :: "string option \<Rightarrow> nat \<Rightarrow> 's \<Rightarrow> (exc + dict list) \<times> 's"
    \<comment> \<open>\<^verbatim>\<open>service.files().list(q, pageSize, fields).execute().get("files", [])\<close>\<close>
  files_create :: "string \<Rightarrow> string option \<Rightarrow> string \<Rightarrow> string option \<Rightarrow> bool \<Rightarrow> 's
                   \<Rightarrow> (exc + dict) \<times> 's"
    \<comment> \<open>\<^verbatim>\<open>MediaFileUpload(local_path, mimetype, resumable)\<close>, then
        \<^verbatim>\<open>service.files().create(body, media_body, fields).execute()\<close>; the arguments are the
        body's name, the body's parent if any, the local path, the mime type, resumable\<close>
  files_update :: "string \<Rightarrow> string \<Rightarrow> string option \<Rightarrow> 's \<Rightarrow> (exc + dict) \<times> 's"
    \<comment> \<open>\<^verbatim>\<open>MediaFileUpload(local_path, mimetype, resumable=True)\<close>, then
        \<^verbatim>\<open>service.files().update(fileId, media_body, fields).execute()\<close>\<close>
  folder_create :: "string \<Rightarrow> string option \<Rightarrow> 's \<Rightarrow> (exc + dict) \<times> 's"
    \<comment> \<open>\<^verbatim>\<open>service.files().create(body, fields).execute()\<close> with the folder mime type\<close>
  files_delete :: "string \<Rightarrow> 's \<Rightarrow> (exc + unit) \<times> 's"
    \<comment> \<open>\<^verbatim>\<open>service.files().delete(fileId).execute()\<close>\<close>

record 's world =
  remote :: 's
  draws :: nat
  trace :: "event list"

definition emit :: "event \<Rightarrow> 's world \<Rightarrow> 's world" where
  "emit ev w = w\<lparr>trace := trace w @ [ev]\<rparr>"

text \<open>Python truthiness of an optional string: \<^verbatim>\<open>None\<close> and \<^verbatim>\<open>""\<close> are false.\<close>

fun truthy :: "string option \<Rightarrow> bool" where
  "truthy None = False"
| "truthy (Some s) = (s \<noteq> [])"

subsection \<open>Floating-point arithmetic\<close>

text \<open>
  A product, sum or difference of two floats is the exact result rounded to the nearest
  double. The rounded result is the exact one times \<open>1 + \<delta>\<close>, where the environment gives
  the relative error \<open>\<delta>\<close> of the exact result and its magnitude never exceeds the unit
  roundoff \<open>1 / 2 ^ 53\<close>. Overflow and underflow of the double range are not modelled.
\<close>

definition unit_roundoff :: real where
  "unit_roundoff = 1 / 2 ^ 53"

definition round_float :: "'s env \<Rightarrow> real \<Rightarrow> real" where
  "round_float env x =
     x * (1 + max (- unit_roundoff) (min unit_roundoff (rounding_error env x)))"

definition fmul :: "'s env \<Rightarrow> real \<Rightarrow> real \<Rightarrow> real" where
  "fmul env x y = round_float env (x * y)"

definition fadd :: "'s env \<Rightarrow> real \<Rightarrow> real \<Rightarrow> real" where
  "fadd env x y = round_float env (x + y)"

definition fsub :: "'s env \<Rightarrow> real \<Rightarrow> real \<Rightarrow> real" where
  "fsub env x y = round_float env (x - y)"

subsection \<open>The retry decorator\<close>

record retry_params =
  max_attempts :: int
  initial_backoff :: real
  multiplier :: real
  max_backoff :: real
  jitter :: bool
  retry_on_exceptions :: "exc \<Rightarrow> bool"  \<comment> \<open>\<^verbatim>\<open>isinstance(exc, retry_on_exceptions)\<close>\<close>

text \<open>The defaults of \<^verbatim>\<open>retry_on_transient()\<close>; \<^verbatim>\<open>(Exception,)\<close> matches every exception.\<close>

definition default_params :: retry_params where
  "default_params =
     \<lparr>max_attempts = 6, initial_backoff = 1, multiplier = 2, max_backoff = 60,
      jitter = True, retry_on_exceptions = (\<lambda>e. True)\<rparr>"

text \<open>Decimal rendering of a natural number, as \<^verbatim>\<open>str\<close> does in an f-string.\<close>

fun str_nat :: "nat \<Rightarrow> string" where
  "str_nat n =
     (if n < 10 then [''0123456789'' ! n]
      else str_nat (n div 10) @ [''0123456789'' ! (n mod 10)])"

declare str_nat.simps [simp del]

text \<open>\<^verbatim>\<open>raise DriveAPIError(f"Function {fn.__name__} failed after {attempt} attempts") from last_exc\<close>\<close>

definition exhausted :: "string \<Rightarrow> nat \<Rightarrow> exc option \<Rightarrow> exc" where
  "exhausted fname attempt last_exc =
     DriveAPIError (''Function '' @ fname @ '' failed after '' @ str_nat attempt @ '' attempts'')
       last_exc"

text \<open>
  \<^verbatim>\<open>random.uniform(a, b)\<close> is \<^verbatim>\<open>a + (b - a) * random.random()\<close>; \<open>uniform_value\<close> is its
  value for the draw \<open>u\<close>.
\<close>

definition uniform_value :: "'s env \<Rightarrow> real \<Rightarrow> real \<Rightarrow> real \<Rightarrow> real" where
  "uniform_value env a b u = fadd env a (fmul env (fsub env b a) u)"

definition random_uniform :: "'s env \<Rightarrow> real \<Rightarrow> real \<Rightarrow> 's world \<Rightarrow> real \<times> 's world" where
  "random_uniform env a b w =
     (uniform_value env a b (random_draw env (draws w)), w\<lparr>draws := Suc (draws w)\<rparr>)"

text \<open>
  \<^verbatim>\<open>time.sleep(d)\<close> converts the duration to a count of nanoseconds: the float product
  with \<open>10 ^ 9\<close>, rounded away from zero to an integer. It raises \<^verbatim>\<open>OverflowError\<close> when the
  count does not fit a signed 64-bit integer, and \<^verbatim>\<open>ValueError\<close> when the count is
  negative. \<open>time_sleep\<close> is the exception raised, if any.
\<close>

definition sleep_nanoseconds :: "'s env \<Rightarrow> real \<Rightarrow> int" where
  "sleep_nanoseconds env d = (let x = fmul env d (10 ^ 9) in if 0 \<le> x then \<lceil>x\<rceil> else \<lfloor>x\<rfloor>)"

definition time_sleep :: "'s env \<Rightarrow> real \<Rightarrow> exc option" where
  "time_sleep env d =
     (let ns = sleep_nanoseconds env d
      in if ns < - (2 ^ 63) \<or> 2 ^ 63 \<le> ns
           then Some (OverflowError ''timestamp out of range for platform time_t'')
         else if ns < 0 then Some (ValueError ''sleep length must be non-negative'')
         else None)"

text \<open>
  Lines 106 to 109: the sleep after failed attempt \<open>attempt\<close>. An exception of
  \<^verbatim>\<open>time.sleep\<close> is raised inside the handler and leaves the wrapper.
\<close>

definition backoff_sleep ::
  "retry_params \<Rightarrow> 's env \<Rightarrow> nat \<Rightarrow> real \<Rightarrow> 's world \<Rightarrow> exc option \<times> 's world" where
  "backoff_sleep P env attempt backoff w =
     (let (sleep_time, w1) = (if jitter P then random_uniform env 0 backoff w else (backoff, w));
          d = min sleep_time (max_backoff P)
      in case time_sleep env d of
           Some err \<Rightarrow> (Some err, w1)
         | None \<Rightarrow> (None, emit (Sleep attempt backoff d) w1))"

text \<open>
  The \<^verbatim>\<open>while attempt < max_attempts\<close> loop of \<^verbatim>\<open>wrapper\<close>. \<open>attempt\<close>, \<open>backoff\<close> and
  \<open>last_exc\<close> are the loop's variables at the head of the loop; \<open>fn\<close> is the decorated body
  applied to its arguments.
\<close>

function retry_loop ::
  "retry_params \<Rightarrow> 's env \<Rightarrow> string \<Rightarrow> ('s world \<Rightarrow> (exc + 'a) \<times> 's world)
     \<Rightarrow> nat \<Rightarrow> real \<Rightarrow> exc option \<Rightarrow> 's world \<Rightarrow> (exc + 'a) \<times> 's world" where
  "retry_loop P env fname fn attempt backoff last_exc w =
     (if int attempt < max_attempts P then
        (case fn w of
           (Inr result, w1) \<Rightarrow> (Inr result, w1)
         | (Inl e, w1) \<Rightarrow>
             if \<not> retry_on_exceptions P e then (Inl e, w1)
             else if max_attempts P \<le> int (Suc attempt)
               then (Inl (exhausted fname (Suc attempt) (Some e)), w1)
             else (case backoff_sleep P env (Suc attempt) backoff w1 of
                     (Some err, w2) \<Rightarrow> (Inl err, w2)
                   | (None, w2) \<Rightarrow>
                       retry_loop P env fname fn (Suc attempt)
                         (min (fmul env backoff (multiplier P)) (max_backoff P)) (Some e) w2))
      else (Inl (exhausted fname attempt last_exc), w))"
  by pat_completeness auto
termination
  by (relation "measure (\<lambda>(P, env, fname, fn, attempt, backoff, last_exc, w).
        nat (max_attempts P - int attempt))") auto

declare retry_loop.simps [simp del]

definition retry_on_transient ::
  "retry_params \<Rightarrow> 's env \<Rightarrow> string \<Rightarrow> ('s world \<Rightarrow> (exc + 'a) \<times> 's world)
     \<Rightarrow> 's world \<Rightarrow> (exc + 'a) \<times> 's world" where
  "retry_on_transient P env fname fn w = retry_loop P env fname fn 0 (initial_backoff P) None w"

subsection \<open>The remote operations\<close>

text \<open>
  Each operation is its body wrapped by \<^verbatim>\<open>@retry_on_transient()\<close> with the defaults. The
  \<^verbatim>\<open>try ... except Exception: log; raise\<close> of a body re-raises what it caught, so the
  result of the library call is the result of the body.
\<close>

definition list_files_body ::
  "'s env \<Rightarrow> string option \<Rightarrow> nat \<Rightarrow> 's world \<Rightarrow> (exc + dict list) \<times> 's world" where
  "list_files_body env q page_size w =
     (let w1 = emit (Request (List_files q page_size)) (emit (Start (List_files q page_size)) w);
          (r, s) = files_list env q page_size (remote w1)
      in (r, w1\<lparr>remote := s\<rparr>))"

definition list_files ::
  "'s env \<Rightarrow> string option \<Rightarrow> nat \<Rightarrow> 's world \<Rightarrow> (exc + dict list) \<times> 's world" where
  "list_files env q page_size =
     retry_on_transient default_params env ''list_files'' (list_files_body env q page_size)"

text \<open>\<^verbatim>\<open>name.replace("'", "\\'")\<close>: a backslash before every single quote.\<close>

definition escape_quotes :: "string \<Rightarrow> string" where
  "escape_quotes s = concat (map (\<lambda>c. if c = CHR 0x27 then [CHR 0x5C, CHR 0x27] else [c]) s)"

definition name_query :: "string \<Rightarrow> string option \<Rightarrow> string" where
  "name_query name parent_id =
     (let q_name = ''name = '' @ [CHR 0x27] @ escape_quotes name @ [CHR 0x27]
      in case parent_id of
           None \<Rightarrow> q_name
         | Some pid \<Rightarrow>
             if pid \<noteq> []
             then q_name @ '' and '' @ [CHR 0x27] @ pid @ [CHR 0x27] @ '' in parents''
             else q_name)"

definition find_file_by_name ::
  "'s env \<Rightarrow> string \<Rightarrow> string option \<Rightarrow> 's world \<Rightarrow> (exc + dict list) \<times> 's world" where
  "find_file_by_name env name parent_id = list_files env (Some (name_query name parent_id)) 100"

text \<open>The parent recorded in a request body: \<^verbatim>\<open>if parent_id: body["parents"] = [parent_id]\<close>.\<close>

definition body_parent :: "string option \<Rightarrow> string option" where
  "body_parent parent_id = (if truthy parent_id then parent_id else None)"

definition upload_file_body ::
  "'s env \<Rightarrow> string \<Rightarrow> string option \<Rightarrow> string option \<Rightarrow> bool \<Rightarrow> 's world
     \<Rightarrow> (exc + dict) \<times> 's world" where
  "upload_file_body env local_path parent_id mime_type resumable w =
     (let w0 = emit (Start (Upload_file local_path parent_id)) w
      in if \<not> path_exists env local_path
         then (Inl (DriveAPIError (''Local file not found: '' @ local_path) None), w0)
         else
           (let w1 = emit (Request (Upload_file local_path parent_id)) w0;
                (r, s) = files_create env (path_name env local_path) (body_parent parent_id)
                           local_path mime_type resumable (remote w1)
            in (r, w1\<lparr>remote := s\<rparr>)))"

definition upload_file ::
  "'s env \<Rightarrow> string \<Rightarrow> string option \<Rightarrow> string option \<Rightarrow> bool \<Rightarrow> 's world
     \<Rightarrow> (exc + dict) \<times> 's world" where
  "upload_file env local_path parent_id mime_type resumable =
     retry_on_transient default_params env ''upload_file''
       (upload_file_body env local_path parent_id mime_type resumable)"

definition update_file_body ::
  "'s env \<Rightarrow> string \<Rightarrow> string \<Rightarrow> string option \<Rightarrow> 's world \<Rightarrow> (exc + dict) \<times> 's world" where
  "update_file_body env file_id local_path mime_type w =
     (let w0 = emit (Start (Update_file file_id local_path)) w
      in if \<not> path_exists env local_path
         then (Inl (DriveAPIError (''Local file not found: '' @ local_path) None), w0)
         else
           (let w1 = emit (Request (Update_file file_id local_path)) w0;
                (r, s) = files_update env file_id local_path mime_type (remote w1)
            in (r, w1\<lparr>remote := s\<rparr>)))"

definition update_file ::
  "'s env \<Rightarrow> string \<Rightarrow> string \<Rightarrow> string option \<Rightarrow> 's world \<Rightarrow> (exc + dict) \<times> 's world" where
  "update_file env file_id local_path mime_type =
     retry_on_transient default_params env ''update_file''
       (update_file_body env file_id local_path mime_type)"

definition create_folder_body ::
  "'s env \<Rightarrow> string \<Rightarrow> string option \<Rightarrow> 's world \<Rightarrow> (exc + dict) \<times> 's world" where
  "create_folder_body env name parent_id w =
     (let w1 = emit (Request (Create_folder name parent_id)) (emit (Start (Create_folder name parent_id)) w);
          (r, s) = folder_create env name (body_parent parent_id) (remote w1)
      in (r, w1\<lparr>remote := s\<rparr>))"

definition create_folder ::
  "'s env \<Rightarrow> string \<Rightarrow> string option \<Rightarrow> 's world \<Rightarrow> (exc + dict) \<times> 's world" where
  "create_folder env name parent_id =
     retry_on_transient default_params env ''create_folder'' (create_folder_body env name parent_id)"

definition delete_file_body :: "'s env \<Rightarrow> string \<Rightarrow> 's world \<Rightarrow> (exc + unit) \<times> 's world" where
  "delete_file_body env file_id w =
     (let w1 = emit (Request (Delete_file file_id)) (emit (Start (Delete_file file_id)) w);
          (r, s) = files_delete env file_id (remote w1)
      in (r, w1\<lparr>remote := s\<rparr>))"

definition delete_file :: "'s env \<Rightarrow> string \<Rightarrow> 's world \<Rightarrow> (exc + unit) \<times> 's world" where
  "delete_file env file_id =
     retry_on_transient default_params env ''delete_file'' (delete_file_body env file_id)"

subsection \<open>The upsert reconciler\<close>

text \<open>\<^verbatim>\<open>d[key]\<close>: the value, or \<^verbatim>\<open>KeyError\<close>.\<close>

definition dict_get :: "dict \<Rightarrow> string \<Rightarrow> exc + string" where
  "dict_get d key = (case map_of d key of None \<Rightarrow> Inl (KeyError key) | Some v \<Rightarrow> Inr v)"

definition upsert_file_by_path ::
  "'s env \<Rightarrow> string \<Rightarrow> string option \<Rightarrow> string \<Rightarrow> bool \<Rightarrow> 's world \<Rightarrow> (exc + dict) \<times> 's world" where
  "upsert_file_by_path env local_path drive_parent_id conflict_policy dry_run w =
     (let name = path_name env local_path
      in case find_file_by_name env name drive_parent_id w of
           (Inl e, w1) \<Rightarrow> (Inl e, w1)
         | (Inr matches, w1) \<Rightarrow>
             (case matches of
                [] \<Rightarrow>
                  if dry_run then (Inr [(''action'', ''create''), (''name'', name)], w1)
                  else upload_file env local_path drive_parent_id None True w1
              | m # ms \<Rightarrow>
                  (case dict_get m ''id'' of
                     Inl e \<Rightarrow> (Inl e, w1)
                   | Inr file_id \<Rightarrow>
                       if conflict_policy = ''skip''
                         then (Inr [(''action'', ''skip''), (''file_id'', file_id)], w1)
                       else if conflict_policy = ''new'' then
                         (if dry_run then (Inr [(''action'', ''create_new''), (''name'', name)], w1)
                          else upload_file env local_path drive_parent_id None True w1)
                       else
                         (if dry_run then (Inr [(''action'', ''update''), (''file_id'', file_id)], w1)
                          else update_file env file_id local_path None w1))))"

subsection \<open>Folder sync\<close>

text \<open>
  One entry of the returned list: \<^verbatim>\<open>{"path": str(p), "result": res}\<close> or
  \<^verbatim>\<open>{"path": str(p), "error": repr(exc)}\<close>. The error entry keeps the exception that
  \<^verbatim>\<open>repr\<close> renders.
\<close>

datatype sync_entry = Result_entry string dict | Error_entry string exc

fun entry_path :: "sync_entry \<Rightarrow> string" where
  "entry_path (Result_entry p res) = p"
| "entry_path (Error_entry p e) = p"

fun is_error_entry :: "sync_entry \<Rightarrow> bool" where
  "is_error_entry (Result_entry p res) = False"
| "is_error_entry (Error_entry p e) = True"

text \<open>
  \<^verbatim>\<open>filters and not filters(p)\<close> decides exclusion; the filter is caller code and may raise.
  The result is whether the file is included.
\<close>

fun filter_includes :: "(string \<Rightarrow> exc + bool) option \<Rightarrow> string \<Rightarrow> exc + bool" where
  "filter_includes None p = Inr True"
| "filter_includes (Some f) p = f p"

text \<open>
  The \<^verbatim>\<open>for p in sorted(local.rglob("*"))\<close> loop: the paths still to visit and the results
  accumulated so far. The filter is called outside the \<^verbatim>\<open>try\<close>; the upsert inside it.
\<close>

fun sync_loop ::
  "'s env \<Rightarrow> string option \<Rightarrow> string \<Rightarrow> (string \<Rightarrow> exc + bool) option \<Rightarrow> bool
     \<Rightarrow> string list \<Rightarrow> sync_entry list \<Rightarrow> 's world \<Rightarrow> (exc + sync_entry list) \<times> 's world" where
  "sync_loop env drive_parent_id mode filters dry_run [] results w = (Inr results, w)"
| "sync_loop env drive_parent_id mode filters dry_run (p # ps) results w =
     (if path_is_dir env p then sync_loop env drive_parent_id mode filters dry_run ps results w
      else
        (case filter_includes filters p of
           Inl e \<Rightarrow> (Inl e, w)
         | Inr False \<Rightarrow> sync_loop env drive_parent_id mode filters dry_run ps results w
         | Inr True \<Rightarrow>
             if mode = ''upsert'' then
               (case upsert_file_by_path env p drive_parent_id ''overwrite'' dry_run w of
                  (Inr res, w1) \<Rightarrow>
                    sync_loop env drive_parent_id mode filters dry_run ps
                      (results @ [Result_entry p res]) w1
                | (Inl e, w1) \<Rightarrow>
                    sync_loop env drive_parent_id mode filters dry_run ps
                      (results @ [Error_entry p e]) w1)
             else sync_loop env drive_parent_id mode filters dry_run ps results w))"

definition sync_folder ::
  "'s env \<Rightarrow> string \<Rightarrow> string option \<Rightarrow> string \<Rightarrow> (string \<Rightarrow> exc + bool) option \<Rightarrow> bool
     \<Rightarrow> 's world \<Rightarrow> (exc + sync_entry list) \<times> 's world" where
  "sync_folder env local_dir drive_parent_id mode filters dry_run w =
     (if \<not> path_exists env local_dir \<or> \<not> path_is_dir env local_dir
      then (Inl (DriveAPIError (''Local dir not found: '' @ local_dir) None), w)
      else sync_loop env drive_parent_id mode filters dry_run (rglob_sorted env local_dir) [] w)"

text \<open>The regular files a pass considers: the listing without directories.\<close>

definition regular_files :: "'s env \<Rightarrow> string \<Rightarrow> string list" where
  "regular_files env local_dir = filter (\<lambda>p. \<not> path_is_dir env p) (rglob_sorted env local_dir)"

subsection \<open>Auxiliary notions for stating the properties\<close>

text \<open>The argument that the sleep after a failed attempt passes to \<^verbatim>\<open>time.sleep\<close>.\<close>

definition sleep_arg :: "retry_params \<Rightarrow> 's env \<Rightarrow> real \<Rightarrow> 's world \<Rightarrow> real" where
  "sleep_arg P env b w =
     min (if jitter P then uniform_value env 0 b (random_draw env (draws w)) else b)
       (max_backoff P)"


text \<open>Calling an operation \<open>n\<close> times in a row, collecting the results.\<close>

fun repeat_call :: "nat \<Rightarrow> ('w \<Rightarrow> 'r \<times> 'w) \<Rightarrow> 'w \<Rightarrow> 'r list \<times> 'w" where
  "repeat_call 0 f w = ([], w)"
| "repeat_call (Suc n) f w =
     (case f w of (r, w1) \<Rightarrow> (case repeat_call n f w1 of (rs, w2) \<Rightarrow> (r # rs, w2)))"

text \<open>
  The upserts of a pass over the paths \<open>ps\<close>, in order, each in the world the previous one
  left: the outcome of every call, raised (\<open>Inl\<close>) or returned (\<open>Inr\<close>), and the final
  world.
\<close>

fun upsert_run ::
  "'s env \<Rightarrow> string option \<Rightarrow> bool \<Rightarrow> string list \<Rightarrow> 's world
     \<Rightarrow> (string \<times> (exc + dict)) list \<times> 's world" where
  "upsert_run env drive_parent_id dry_run [] w = ([], w)"
| "upsert_run env drive_parent_id dry_run (p # ps) w =
     (case upsert_file_by_path env p drive_parent_id ''overwrite'' dry_run w of
        (r, w1) \<Rightarrow>
          (case upsert_run env drive_parent_id dry_run ps w1 of
             (rs, w2) \<Rightarrow> ((p, r) # rs, w2)))"

text \<open>Whether the upsert of an outcome raised.\<close>

fun raised :: "string \<times> (exc + dict) \<Rightarrow> bool" where
  "raised (p, Inl e) = True"
| "raised (p, Inr res) = False"

text \<open>
  The entry that records the outcome of one upsert: a success record for a returned result,
  an error record with the exception for a raised one.
\<close>

fun entry_of :: "string \<times> (exc + dict) \<Rightarrow> sync_entry" where
  "entry_of (p, Inr res) = Result_entry p res"
| "entry_of (p, Inl e) = Error_entry p e"

text \<open>The files of a list that the filter includes.\<close>

definition included :: "(string \<Rightarrow> exc + bool) option \<Rightarrow> string list \<Rightarrow> string list" where
  "included filters ps = filter (\<lambda>p. filter_includes filters p = Inr True) ps"

text \<open>Events appended to the trace, all satisfying a predicate.\<close>

definition extends_by :: "(event \<Rightarrow> bool) \<Rightarrow> 's world \<Rightarrow> 's world \<Rightarrow> bool" where
  "extends_by Q w w' = (\<exists>evs. trace w' = trace w @ evs \<and> list_all Q evs)"

text \<open>The events a name lookup with query \<open>q\<close> may leave in the trace.\<close>

definition lookup_event :: "string option \<Rightarrow> event \<Rightarrow> bool" where
  "lookup_event q e = (is_sleep e \<or> e = Start (List_files q 100) \<or> e = Request (List_files q 100))"

subsection \<open>An example environment\<close>

text \<open>
  A stub in the manner of \<^verbatim>\<open>tests/test_drive_api_run.py\<close>: every list request answers with
  the fixed \<open>files_result\<close>. The mutating requests succeed and count themselves in the remote
  state. The local tree is a directory \<^verbatim>\<open>docs\<close> with two files, a subdirectory and a
  dangling link (listed, but it does not exist), and a directory \<^verbatim>\<open>single\<close> with one file.
  Every draw is 1/2 and no result is rounded: the backoff values of the examples are
  small multiples of powers of two, whose products are doubles.
\<close>

definition base_name :: "string \<Rightarrow> string" where
  "base_name p = rev (takeWhile (\<lambda>c. c \<noteq> CHR ''/'') (rev p))"

definition example_env :: "dict list \<Rightarrow> nat env" where
  "example_env files_result =
     \<lparr>path_exists = (\<lambda>p. p \<in> set [''docs'', ''docs/notes.txt'', ''docs/report.txt'', ''docs/sub'',
                                    ''single'', ''single/report.txt'']),
      path_is_dir = (\<lambda>p. p \<in> set [''docs'', ''docs/sub'', ''single'']),
      path_name = base_name,
      rglob_sorted = (\<lambda>d. if d = ''docs''
                           then [''docs/broken.lnk'', ''docs/notes.txt'', ''docs/report.txt'', ''docs/sub'']
                           else if d = ''single'' then [''single/report.txt''] else []),
      random_draw = (\<lambda>i. 1 / 2),
      rounding_error = (\<lambda>x. 0),
      files_list = (\<lambda>q page_size s. (Inr files_result, s)),
      files_create = (\<lambda>name parent local_path mime_type resumable s.
                        (Inr [(''id'', ''new'' @ str_nat s), (''name'', name)], Suc s)),
      files_update = (\<lambda>file_id local_path mime_type s.
                        (Inr [(''id'', file_id), (''name'', base_name local_path),
                              (''modifiedTime'', ''t'' @ str_nat s)], Suc s)),
      folder_create = (\<lambda>name parent s. (Inr [(''id'', ''dir'' @ str_nat s), (''name'', name)], Suc s)),
      files_delete = (\<lambda>file_id s. (Inr (), Suc s))\<rparr>"

definition world0 :: "nat world" where
  "world0 = \<lparr>remote = 0, draws = 0, trace = []\<rparr>"

text \<open>
  A store that is unavailable for six upload requests after its first upload, whatever the
  file, over a directory \<^verbatim>\<open>inbox\<close> with three files: which upsert fails depends on the
  state of the store, not on the path.
\<close>

definition flaky_env :: "nat env" where
  "flaky_env = (example_env [])
     \<lparr>path_exists := (\<lambda>p. p \<in> set [''inbox'', ''inbox/a.txt'', ''inbox/b.txt'', ''inbox/c.txt'']),
      path_is_dir := (\<lambda>p. p = ''inbox''),
      rglob_sorted := (\<lambda>d. if d = ''inbox''
                            then [''inbox/a.txt'', ''inbox/b.txt'', ''inbox/c.txt''] else []),
      files_create := (\<lambda>name parent local_path mime_type resumable s.
                         if 1 \<le> s \<and> s \<le> 6 then (Inl (ExternalError ''HttpError 503''), Suc s)
                         else (Inr [(''id'', ''new'' @ str_nat s), (''name'', name)], Suc s))\<rparr>"

text \<open>A filter that fails on the report and includes everything else.\<close>

definition failing_filter :: "string \<Rightarrow> exc + bool" where
  "failing_filter p =
     (if p = ''docs/report.txt'' then Inl (ExternalError ''filter failed'') else Inr True)"

section \<open>Properties\<close>

subsection \<open>Traces\<close>

lemma trace_emit [simp]: "trace (emit ev w) = trace w @ [ev]"
  and remote_emit [simp]: "remote (emit ev w) = remote w"
  and draws_emit [simp]: "draws (emit ev w) = draws w"
  by (simp_all add: emit_def)

lemma starts_append [simp]: "starts c (xs @ ys) = starts c xs + starts c ys"
  by (simp add: starts_def)

lemma nsleeps_append [simp]: "nsleeps (xs @ ys) = nsleeps xs + nsleeps ys"
  by (simp add: nsleeps_def)

lemma requests_append [simp]: "requests c (xs @ ys) = requests c xs + requests c ys"
  by (simp add: requests_def)

lemma starts_simps [simp]:
  "starts c [] = 0"
  "starts c (Start c' # tr) = (if c' = c then Suc (starts c tr) else starts c tr)"
  "starts c (Request c' # tr) = starts c tr"
  "starts c (Sleep n b d # tr) = starts c tr"
  by (simp_all add: starts_def)

lemma requests_simps [simp]:
  "requests c [] = 0"
  "requests c (Request c' # tr) = (if c' = c then Suc (requests c tr) else requests c tr)"
  "requests c (Start c' # tr) = requests c tr"
  "requests c (Sleep n b d # tr) = requests c tr"
  by (simp_all add: requests_def)

lemma nsleeps_simps [simp]:
  "nsleeps [] = 0"
  "nsleeps (Sleep n b d # tr) = Suc (nsleeps tr)"
  "nsleeps (Start c # tr) = nsleeps tr"
  "nsleeps (Request c # tr) = nsleeps tr"
  by (simp_all add: nsleeps_def)

subsection \<open>The sleep between attempts\<close>

lemma unit_roundoff_bounds: "0 < unit_roundoff" "unit_roundoff < 1"
  by (simp_all add: unit_roundoff_def)

lemma round_float_factor:
  "\<exists>f. round_float env x = x * f \<and> 1 - unit_roundoff \<le> f \<and> f \<le> 1 + unit_roundoff"
proof -
  let ?f = "1 + max (- unit_roundoff) (min unit_roundoff (rounding_error env x))"
  have "round_float env x = x * ?f" by (simp add: round_float_def)
  moreover have "1 - unit_roundoff \<le> ?f" by simp
  moreover have "?f \<le> 1 + unit_roundoff" using unit_roundoff_bounds(1) by simp
  ultimately show ?thesis by blast
qed

lemma round_float_nonneg: "0 \<le> x \<Longrightarrow> 0 \<le> round_float env x"
proof -
  assume x: "0 \<le> x"
  obtain f where f: "round_float env x = x * f" "1 - unit_roundoff \<le> f"
    using round_float_factor by blast
  have "0 \<le> f" using f(2) unit_roundoff_bounds by simp
  then show ?thesis using x f(1) by simp
qed


lemma round_float_le_twice: "0 \<le> x \<Longrightarrow> round_float env x \<le> 2 * x"
proof -
  assume x: "0 \<le> x"
  obtain f where f: "round_float env x = x * f" "f \<le> 1 + unit_roundoff"
    using round_float_factor by blast
  have "f \<le> 2" using f(2) unit_roundoff_bounds by simp
  then have "x * f \<le> x * 2" using x by (rule mult_left_mono)
  then show ?thesis using f(1) by simp
qed

lemma uniform_value_nonneg: "0 \<le> b \<Longrightarrow> 0 \<le> u \<Longrightarrow> 0 \<le> uniform_value env 0 b u"
  by (simp add: uniform_value_def fadd_def fmul_def fsub_def round_float_nonneg)

text \<open>\<^verbatim>\<open>time.sleep\<close> accepts a duration exactly when its nanosecond count is in range.\<close>

lemma time_sleep_None:
  "time_sleep env d = None \<longleftrightarrow> 0 \<le> sleep_nanoseconds env d \<and> sleep_nanoseconds env d < 2 ^ 63"
  by (auto simp add: time_sleep_def Let_def)


text \<open>Every duration from 0 to the default \<^verbatim>\<open>max_backoff\<close> of 60 seconds is accepted.\<close>

lemma time_sleep_accepts_default:
  assumes "0 \<le> d" "d \<le> 60"
  shows "time_sleep env d = None"
proof -
  let ?x = "fmul env d (10 ^ 9)"
  have x0: "0 \<le> ?x" unfolding fmul_def using assms(1) by (intro round_float_nonneg) simp
  have "?x \<le> 2 * (d * 10 ^ 9)" unfolding fmul_def using assms(1) by (intro round_float_le_twice) simp
  then have "?x \<le> 120000000000" using assms(2) by simp
  then have "\<lceil>?x\<rceil> \<le> 120000000000" by (simp add: ceiling_le_iff)
  then have "sleep_nanoseconds env d < 2 ^ 63" using x0 by (simp add: sleep_nanoseconds_def Let_def)
  moreover have "0 \<le> sleep_nanoseconds env d"
    using x0 by (simp add: sleep_nanoseconds_def Let_def)
  ultimately show ?thesis by (simp add: time_sleep_None)
qed

lemma backoff_sleep_eq:
  "backoff_sleep P env n b w =
     (let w1 = (if jitter P then w\<lparr>draws := Suc (draws w)\<rparr> else w)
      in case time_sleep env (sleep_arg P env b w) of
           Some err \<Rightarrow> (Some err, w1)
         | None \<Rightarrow> (None, emit (Sleep n b (sleep_arg P env b w)) w1))"
  by (auto simp add: backoff_sleep_def sleep_arg_def random_uniform_def Let_def
      split: option.splits)

lemma backoff_sleep_trace:
  "trace (snd (backoff_sleep P env n b w)) =
     trace w @ (if time_sleep env (sleep_arg P env b w) = None
                then [Sleep n b (sleep_arg P env b w)] else [])"
  by (simp add: backoff_sleep_eq Let_def split: option.splits)

lemma backoff_sleep_remote: "remote (snd (backoff_sleep P env n b w)) = remote w"
  by (simp add: backoff_sleep_eq Let_def split: option.splits)

lemma backoff_sleep_None:
  "fst (backoff_sleep P env n b w) = None \<longleftrightarrow> time_sleep env (sleep_arg P env b w) = None"
  by (simp add: backoff_sleep_eq Let_def split: option.splits)

lemma sleep_arg_nonneg:
  assumes "0 \<le> b" "0 \<le> max_backoff P" "jitter P \<longrightarrow> (\<forall>i. 0 \<le> random_draw env i)"
  shows "0 \<le> sleep_arg P env b w"
  using assms by (simp add: sleep_arg_def uniform_value_nonneg)

lemma sleep_arg_le: "sleep_arg P env b w \<le> max_backoff P"
  by (simp add: sleep_arg_def)

subsection \<open>The retry loop\<close>

text \<open>
  A relation between the world before and after that is reflexive, transitive, and kept by
  the body and by the sleep, is kept by the loop.
\<close>

lemma retry_loop_rel:
  assumes r: "\<And>w. R w w" and t: "\<And>a b c. R a b \<Longrightarrow> R b c \<Longrightarrow> R a c"
    and f: "\<And>w. R w (snd (fn w))"
    and s: "\<And>n b w. R w (snd (backoff_sleep P env n b w))"
  shows "R w (snd (retry_loop P env fname fn attempt backoff last_exc w))"
  using f s
proof (induction P env fname fn attempt backoff last_exc w rule: retry_loop.induct)
  case (1 P env fname fn attempt backoff last_exc w)
  show ?case
  proof (cases "int attempt < max_attempts P")
    case False
    then show ?thesis by (subst retry_loop.simps) (simp add: r)
  next
    case True
    obtain x w1 where fw: "fn w = (x, w1)" by force
    have Rw1: "R w w1" using "1.prems"(1) [of w] fw by simp
    show ?thesis
    proof (cases x)
      case (Inr res)
      then show ?thesis using True fw Rw1 by (subst retry_loop.simps) simp
    next
      case (Inl e)
      obtain y w2 where sl: "backoff_sleep P env (Suc attempt) backoff w1 = (y, w2)" by force
      have Rw2: "R w w2" using "1.prems"(2) sl Rw1 t by (metis snd_conv)
      show ?thesis
      proof (cases "retry_on_exceptions P e \<and> \<not> max_attempts P \<le> int (Suc attempt) \<and> y = None")
        case False
        then show ?thesis using True fw Inl sl Rw1 Rw2
          by (subst retry_loop.simps) (auto split: option.splits)
      next
        case c: True
        have "R w2 (snd (retry_loop P env fname fn (Suc attempt)
                 (min (fmul env backoff (multiplier P)) (max_backoff P)) (Some e) w2))"
          using "1.IH" [OF True fw [symmetric] Inl _ _ sl [symmetric]] c "1.prems" by simp
        then show ?thesis using True fw Inl sl c Rw2 t
          by (subst retry_loop.simps) auto
      qed
    qed
  qed
qed

text \<open>
  A body that fails on every call, each time with a retried exception, is called until the
  attempts are used up, provided no sleep is refused.
\<close>

lemma retry_loop_exhaust:
  assumes fails: "\<And>w. \<exists>e. fst (fn w) = Inl e \<and> retry_on_exceptions P e"
    and st: "\<And>w. starts c (trace (snd (fn w))) = Suc (starts c (trace w))"
    and ns: "\<And>w. nsleeps (trace (snd (fn w))) = nsleeps (trace w)"
    and m: "0 \<le> multiplier P" and mb: "0 \<le> max_backoff P"
    and rd: "jitter P \<longrightarrow> (\<forall>i. 0 \<le> random_draw env i)"
    and acc: "\<And>d. 0 \<le> d \<Longrightarrow> d \<le> max_backoff P \<Longrightarrow> time_sleep env d = None"
    and b: "0 \<le> backoff"
    and a: "int attempt < max_attempts P"
  shows "\<exists>e wl w'. retry_loop P env fname fn attempt backoff last_exc w =
            (Inl (exhausted fname (nat (max_attempts P)) (Some e)), w')
          \<and> fn wl = (Inl e, w')
          \<and> starts c (trace w') = starts c (trace w) + (nat (max_attempts P) - attempt)
          \<and> nsleeps (trace w') = nsleeps (trace w) + (nat (max_attempts P) - attempt - 1)"
  using assms
proof (induction P env fname fn attempt backoff last_exc w rule: retry_loop.induct)
  case (1 P env fname fn attempt backoff last_exc w)
  obtain e where fe: "fst (fn w) = Inl e" and re: "retry_on_exceptions P e"
    using "1.prems"(1) by blast
  define w1 where "w1 = snd (fn w)"
  have fw: "fn w = (Inl e, w1)" using fe by (simp add: w1_def prod_eq_iff)
  have s1: "starts c (trace w1) = Suc (starts c (trace w))"
    and n1: "nsleeps (trace w1) = nsleeps (trace w)"
    using "1.prems"(2,3) by (simp_all add: w1_def)
  note lt = \<open>int attempt < max_attempts P\<close>
  show ?case
  proof (cases "max_attempts P \<le> int (Suc attempt)")
    case True
    then have k: "nat (max_attempts P) = Suc attempt" using lt by linarith
    have "retry_loop P env fname fn attempt backoff last_exc w =
            (Inl (exhausted fname (Suc attempt) (Some e)), w1)"
      using lt fw re True by (subst retry_loop.simps) simp
    then show ?thesis using fw s1 n1 k by auto
  next
    case False
    define d where "d = sleep_arg P env backoff w1"
    define w2 where "w2 = snd (backoff_sleep P env (Suc attempt) backoff w1)"
    have "0 \<le> d"
      using sleep_arg_nonneg [of backoff P env w1] "1.prems" by (simp add: d_def)
    moreover have "d \<le> max_backoff P" by (simp add: d_def sleep_arg_le)
    ultimately have d0: "time_sleep env d = None" using "1.prems"(7) by simp
    have sl: "backoff_sleep P env (Suc attempt) backoff w1 = (None, w2)"
      using d0 by (simp add: w2_def d_def backoff_sleep_eq Let_def)
    have tr2: "trace w2 = trace w1 @ [Sleep (Suc attempt) backoff d]"
      using d0 by (simp add: w2_def d_def backoff_sleep_trace)
    have "0 \<le> fmul env backoff (multiplier P)"
      unfolding fmul_def using "1.prems" by (intro round_float_nonneg) simp
    then have b': "0 \<le> min (fmul env backoff (multiplier P)) (max_backoff P)"
      using "1.prems" by simp
    have lt': "int (Suc attempt) < max_attempts P" using False by simp
    obtain e' wl w' where
      r: "retry_loop P env fname fn (Suc attempt)
            (min (fmul env backoff (multiplier P)) (max_backoff P))
            (Some e) w2 = (Inl (exhausted fname (nat (max_attempts P)) (Some e')), w')"
      and l: "fn wl = (Inl e', w')"
      and s': "starts c (trace w') = starts c (trace w2) + (nat (max_attempts P) - Suc attempt)"
      and n': "nsleeps (trace w') = nsleeps (trace w2) + (nat (max_attempts P) - Suc attempt - 1)"
      using "1.IH" [OF lt fw [symmetric] refl _ False sl [symmetric] refl
          "1.prems"(1,2,3,4,5,6,7) b' lt'] re
      by auto
    have "retry_loop P env fname fn attempt backoff last_exc w =
            (Inl (exhausted fname (nat (max_attempts P)) (Some e')), w')"
      using lt fw re False sl r by (subst retry_loop.simps) simp
    moreover have "starts c (trace w') = starts c (trace w) + (nat (max_attempts P) - attempt)"
    proof -
      have "starts c (trace w') = Suc (starts c (trace w)) + (nat (max_attempts P) - Suc attempt)"
        using s' tr2 s1 by simp
      then show ?thesis using lt' by linarith
    qed
    moreover have "nsleeps (trace w') = nsleeps (trace w) + (nat (max_attempts P) - attempt - 1)"
    proof -
      have "nsleeps (trace w') = Suc (nsleeps (trace w)) + (nat (max_attempts P) - Suc attempt - 1)"
        using n' tr2 n1 by simp
      then show ?thesis using lt' by linarith
    qed
    ultimately show ?thesis using l by blast
  qed
qed

subsection \<open>Retry termination\<close>

text \<open>
  C4, as stated, does not hold for every retry policy. With \<^verbatim>\<open>initial_backoff = -1\<close> and
  no jitter, \<^verbatim>\<open>time.sleep\<close> refuses the first sleep: the body is called once, not three
  times, and the caller receives a \<^verbatim>\<open>ValueError\<close>. With a \<^verbatim>\<open>retry_on_exceptions\<close> that
  does not match the exception of the body, the body is called once and its own exception
  reaches the caller.
\<close>

theorem retry_exhausted_counterexample:
  "retry_on_transient (default_params\<lparr>max_attempts := 3, initial_backoff := - 1, jitter := False\<rparr>)
       (example_env []) ''upload_file''
       (upload_file_body (example_env []) ''missing.txt'' None None True) world0 =
     (Inl (ValueError ''sleep length must be non-negative''),
      \<lparr>remote = 0, draws = 0, trace = [Start (Upload_file ''missing.txt'' None)]\<rparr>)
   \<and> retry_on_transient
       (default_params\<lparr>max_attempts := 3,
          retry_on_exceptions := (\<lambda>e. case e of KeyError key \<Rightarrow> True | _ \<Rightarrow> False)\<rparr>)
       (example_env []) ''upload_file''
       (upload_file_body (example_env []) ''missing.txt'' None None True) world0 =
     (Inl (DriveAPIError ''Local file not found: missing.txt'' None),
      \<lparr>remote = 0, draws = 0, trace = [Start (Upload_file ''missing.txt'' None)]\<rparr>)"
  by (simp add: retry_on_transient_def retry_loop.simps upload_file_body_def
      example_env_def default_params_def world0_def backoff_sleep_def
      fmul_def round_float_def unit_roundoff_def time_sleep_def sleep_nanoseconds_def
      emit_def Let_def)

text \<open>
  C4, amended: for every \<open>k \<ge> 1\<close>, a body wrapped with \<open>max_attempts = k\<close> that raises on
  every call an exception that \<^verbatim>\<open>retry_on_exceptions\<close> matches (by default every
  exception) is called exactly \<open>k\<close> times (its start event is recorded \<open>k\<close> more times),
  with \<open>k - 1\<close> sleeps in between; then the wrapper raises the \<^verbatim>\<open>DriveAPIError\<close>
  "Function ... failed after k attempts", whose cause is the exception of the last call.
  For \<open>k > 1\<close> the backoff settings and the random draws are non-negative and
  \<^verbatim>\<open>time.sleep\<close> accepts every duration from 0 to \<^verbatim>\<open>max_backoff\<close>. With \<open>k = 1\<close> there
  is one call and no sleep, whatever the backoff settings.
\<close>

theorem retry_exhausted_after_k_attempts:
  assumes k: "1 \<le> k" and mk: "max_attempts P = int k"
    and sane: "k = 1 \<or> (0 \<le> initial_backoff P \<and> 0 \<le> multiplier P \<and> 0 \<le> max_backoff P
                 \<and> (jitter P \<longrightarrow> (\<forall>i. 0 \<le> random_draw env i))
                 \<and> (\<forall>d. 0 \<le> d \<and> d \<le> max_backoff P \<longrightarrow> time_sleep env d = None))"
    and fails: "\<And>w. \<exists>e. fst (fn w) = Inl e \<and> retry_on_exceptions P e"
    and st: "\<And>w. starts c (trace (snd (fn w))) = Suc (starts c (trace w))"
    and ns: "\<And>w. nsleeps (trace (snd (fn w))) = nsleeps (trace w)"
  shows "\<exists>e wl w'. retry_on_transient P env fname fn w =
             (Inl (DriveAPIError
                     (''Function '' @ fname @ '' failed after '' @ str_nat k @ '' attempts'')
                     (Some e)), w')
           \<and> fn wl = (Inl e, w')
           \<and> starts c (trace w') = starts c (trace w) + k
           \<and> nsleeps (trace w') = nsleeps (trace w) + (k - 1)"
proof (cases "k = 1")
  case True
  obtain e where fe: "fst (fn w) = Inl e" and re: "retry_on_exceptions P e"
    using fails by blast
  have fw: "fn w = (Inl e, snd (fn w))" using fe by (simp add: prod_eq_iff)
  have "retry_on_transient P env fname fn w = (Inl (exhausted fname 1 (Some e)), snd (fn w))"
    unfolding retry_on_transient_def using mk True re
    by (subst retry_loop.simps, subst fw) simp
  then show ?thesis using True fw st [of w] ns [of w] by (auto simp add: exhausted_def)
next
  case False
  then have s: "0 \<le> initial_backoff P" "0 \<le> multiplier P" "0 \<le> max_backoff P"
    "jitter P \<longrightarrow> (\<forall>i. 0 \<le> random_draw env i)"
    "\<And>d. 0 \<le> d \<Longrightarrow> d \<le> max_backoff P \<Longrightarrow> time_sleep env d = None"
    using sane by auto
  have a: "int 0 < max_attempts P" using k mk by simp
  show ?thesis
    unfolding retry_on_transient_def
    using retry_loop_exhaust [of fn P c env "initial_backoff P" 0 fname None w,
        OF fails st ns s(2) s(3) s(4) s(5) s(1) a] mk
    by (simp add: exhausted_def)
qed

theorem retry_exhausted_after_k_attempts_witness:
  "fst (retry_on_transient (default_params\<lparr>max_attempts := 3\<rparr>) (example_env []) ''upload_file''
        (upload_file_body (example_env []) ''missing.txt'' None None True) world0) =
     Inl (DriveAPIError ''Function upload_file failed after 3 attempts''
            (Some (DriveAPIError ''Local file not found: missing.txt'' None)))
   \<and> starts (Upload_file ''missing.txt'' None)
        (trace (snd (retry_on_transient (default_params\<lparr>max_attempts := 3\<rparr>) (example_env [])
           ''upload_file'' (upload_file_body (example_env []) ''missing.txt'' None None True)
           world0))) = 3
   \<and> nsleeps
        (trace (snd (retry_on_transient (default_params\<lparr>max_attempts := 3\<rparr>) (example_env [])
           ''upload_file'' (upload_file_body (example_env []) ''missing.txt'' None None True)
           world0))) = 2"
proof -
  let ?P = "default_params\<lparr>max_attempts := 3\<rparr>"
  let ?fn = "upload_file_body (example_env []) ''missing.txt'' None None True"
  have k: "(1::nat) \<le> 3" by simp
  have mk: "max_attempts ?P = int 3" by simp
  have sane: "(3::nat) = 1 \<or> (0 \<le> initial_backoff ?P \<and> 0 \<le> multiplier ?P \<and> 0 \<le> max_backoff ?P
                 \<and> (jitter ?P \<longrightarrow> (\<forall>i. 0 \<le> random_draw (example_env []) i))
                 \<and> (\<forall>d. 0 \<le> d \<and> d \<le> max_backoff ?P \<longrightarrow> time_sleep (example_env []) d = None))"
    by (simp add: default_params_def example_env_def time_sleep_accepts_default)
  have body: "\<And>w. ?fn w = (Inl (DriveAPIError ''Local file not found: missing.txt'' None),
                           emit (Start (Upload_file ''missing.txt'' None)) w)"
    by (simp add: example_env_def upload_file_body_def)
  have fails: "\<And>w. \<exists>e. fst (?fn w) = Inl e \<and> retry_on_exceptions ?P e"
    by (simp add: body default_params_def)
  have st: "\<And>w. starts (Upload_file ''missing.txt'' None) (trace (snd (?fn w))) =
                 Suc (starts (Upload_file ''missing.txt'' None) (trace w))"
    by (simp add: body)
  have ns: "\<And>w. nsleeps (trace (snd (?fn w))) = nsleeps (trace w)"
    by (simp add: body)
  obtain e wl w' where
    r: "retry_on_transient ?P (example_env []) ''upload_file'' ?fn world0 =
          (Inl (DriveAPIError
                  (''Function '' @ ''upload_file'' @ '' failed after '' @ str_nat 3 @ '' attempts'')
                  (Some e)), w')"
    and l: "?fn wl = (Inl e, w')"
    and s: "starts (Upload_file ''missing.txt'' None) (trace w') =
              starts (Upload_file ''missing.txt'' None) (trace world0) + 3"
    and n: "nsleeps (trace w') = nsleeps (trace world0) + (3 - 1)"
    using retry_exhausted_after_k_attempts [OF k mk sane fails st ns, of "''upload_file''" world0]
    by blast
  have e: "e = DriveAPIError ''Local file not found: missing.txt'' None"
    using l body by simp
  show ?thesis using r s n e by (simp add: world0_def str_nat.simps)
qed

subsection \<open>A missing local file\<close>

text \<open>
  A body that fails before its request, as \<^verbatim>\<open>upload_file\<close> and \<^verbatim>\<open>update_file\<close> do
  when the local path does not exist, is retried like any other failure.
\<close>

lemma precondition_failure_exhaust:
  assumes body: "\<And>w. fn w = (Inl err, emit (Start c) w)"
    and rd: "\<forall>i. 0 \<le> random_draw env i"
  shows "\<exists>w'. retry_on_transient default_params env fname fn w =
             (Inl (exhausted fname 6 (Some err)), w')
           \<and> starts c (trace w') = starts c (trace w) + 6
           \<and> nsleeps (trace w') = nsleeps (trace w) + 5
           \<and> remote w' = remote w
           \<and> (\<forall>c'. requests c' (trace w') = requests c' (trace w))"
proof -
  let ?P = default_params
  have fails: "\<And>w. \<exists>e. fst (fn w) = Inl e \<and> retry_on_exceptions ?P e"
    by (simp add: body default_params_def)
  have st: "\<And>w. starts c (trace (snd (fn w))) = Suc (starts c (trace w))"
    by (simp add: body)
  have ns: "\<And>w. nsleeps (trace (snd (fn w))) = nsleeps (trace w)"
    by (simp add: body)
  have p: "0 \<le> multiplier ?P" "0 \<le> max_backoff ?P" "jitter ?P \<longrightarrow> (\<forall>i. 0 \<le> random_draw env i)"
    "\<And>d. 0 \<le> d \<Longrightarrow> d \<le> max_backoff ?P \<Longrightarrow> time_sleep env d = None"
    "0 \<le> initial_backoff ?P" "int 0 < max_attempts ?P"
    using rd by (simp_all add: default_params_def time_sleep_accepts_default)
  obtain e wl w' where
    r: "retry_loop ?P env fname fn 0 (initial_backoff ?P) None w =
          (Inl (exhausted fname (nat (max_attempts ?P)) (Some e)), w')"
    and l: "fn wl = (Inl e, w')"
    and s: "starts c (trace w') = starts c (trace w) + (nat (max_attempts ?P) - 0)"
    and n: "nsleeps (trace w') = nsleeps (trace w) + (nat (max_attempts ?P) - 0 - 1)"
    using retry_loop_exhaust [of fn ?P c env "initial_backoff ?P" 0 fname None w,
        OF fails st ns p] by blast
  have e: "e = err" using l body by simp
  have k: "nat (max_attempts ?P) = 6" by (simp add: default_params_def)
  let ?R = "\<lambda>a b. remote b = remote a \<and> (\<forall>c'. requests c' (trace b) = requests c' (trace a))"
  have "?R w (snd (retry_loop ?P env fname fn 0 (initial_backoff ?P) None w))"
    by (rule retry_loop_rel [where R = ?R])
      (simp_all add: body backoff_sleep_trace backoff_sleep_remote)
  then have "?R w w'" using r by simp
  then show ?thesis using r s n e k by (simp add: retry_on_transient_def)
qed

text \<open>
  C3, as stated, does not hold: on a local path that does not exist, the body of
  \<^verbatim>\<open>upload_file\<close> runs six times with five sleeps in between, and the caller receives the
  retry-exhausted error, not the local-file-missing error.
\<close>

theorem missing_local_file_counterexample:
  "fst (upload_file (example_env []) ''missing.txt'' None None True world0) =
     Inl (DriveAPIError ''Function upload_file failed after 6 attempts''
            (Some (DriveAPIError ''Local file not found: missing.txt'' None)))
   \<and> trace (snd (upload_file (example_env []) ''missing.txt'' None None True world0)) =
     [Start (Upload_file ''missing.txt'' None), Sleep 1 1 (1 / 2),
      Start (Upload_file ''missing.txt'' None), Sleep 2 2 1,
      Start (Upload_file ''missing.txt'' None), Sleep 3 4 2,
      Start (Upload_file ''missing.txt'' None), Sleep 4 8 4,
      Start (Upload_file ''missing.txt'' None), Sleep 5 16 8,
      Start (Upload_file ''missing.txt'' None)]"
  by (simp add: upload_file_def retry_on_transient_def retry_loop.simps upload_file_body_def
      example_env_def default_params_def world0_def backoff_sleep_def random_uniform_def
      uniform_value_def fadd_def fsub_def fmul_def round_float_def unit_roundoff_def
      time_sleep_def sleep_nanoseconds_def
      exhausted_def str_nat.simps emit_def Let_def)


text \<open>
  C3, amended: for every local path that does not exist, \<^verbatim>\<open>upload_file\<close> and
  \<^verbatim>\<open>update_file\<close> execute their body six times (the default \<^verbatim>\<open>max_attempts\<close>), sleeping
  five times in between, and then fail with the retry-exhausted \<^verbatim>\<open>DriveAPIError\<close> whose
  cause is the local-file-missing error. No request reaches the client library and the
  remote store is unchanged. The random draws are non-negative, as \<^verbatim>\<open>random.random()\<close>
  gives them.
\<close>

theorem missing_local_file_is_retried:
  assumes missing: "\<not> path_exists env local_path"
    and rd: "\<forall>i. 0 \<le> random_draw env i"
  shows "(\<exists>w'. upload_file env local_path parent_id mime_type resumable w =
             (Inl (exhausted ''upload_file'' 6
                (Some (DriveAPIError (''Local file not found: '' @ local_path) None))), w')
           \<and> starts (Upload_file local_path parent_id) (trace w') =
               starts (Upload_file local_path parent_id) (trace w) + 6
           \<and> nsleeps (trace w') = nsleeps (trace w) + 5
           \<and> remote w' = remote w
           \<and> (\<forall>c. requests c (trace w') = requests c (trace w)))
       \<and> (\<exists>w'. update_file env file_id local_path mime_type w =
             (Inl (exhausted ''update_file'' 6
                (Some (DriveAPIError (''Local file not found: '' @ local_path) None))), w')
           \<and> starts (Update_file file_id local_path) (trace w') =
               starts (Update_file file_id local_path) (trace w) + 6
           \<and> nsleeps (trace w') = nsleeps (trace w) + 5
           \<and> remote w' = remote w
           \<and> (\<forall>c. requests c (trace w') = requests c (trace w)))"
proof
  have "\<And>w. upload_file_body env local_path parent_id mime_type resumable w =
          (Inl (DriveAPIError (''Local file not found: '' @ local_path) None),
           emit (Start (Upload_file local_path parent_id)) w)"
    using missing by (simp add: upload_file_body_def)
  then show "\<exists>w'. upload_file env local_path parent_id mime_type resumable w =
             (Inl (exhausted ''upload_file'' 6
                (Some (DriveAPIError (''Local file not found: '' @ local_path) None))), w')
           \<and> starts (Upload_file local_path parent_id) (trace w') =
               starts (Upload_file local_path parent_id) (trace w) + 6
           \<and> nsleeps (trace w') = nsleeps (trace w) + 5
           \<and> remote w' = remote w
           \<and> (\<forall>c. requests c (trace w') = requests c (trace w))"
    unfolding upload_file_def using rd by (rule precondition_failure_exhaust)
next
  have "\<And>w. update_file_body env file_id local_path mime_type w =
          (Inl (DriveAPIError (''Local file not found: '' @ local_path) None),
           emit (Start (Update_file file_id local_path)) w)"
    using missing by (simp add: update_file_body_def)
  then show "\<exists>w'. update_file env file_id local_path mime_type w =
             (Inl (exhausted ''update_file'' 6
                (Some (DriveAPIError (''Local file not found: '' @ local_path) None))), w')
           \<and> starts (Update_file file_id local_path) (trace w') =
               starts (Update_file file_id local_path) (trace w) + 6
           \<and> nsleeps (trace w') = nsleeps (trace w) + 5
           \<and> remote w' = remote w
           \<and> (\<forall>c. requests c (trace w') = requests c (trace w))"
    unfolding update_file_def using rd by (rule precondition_failure_exhaust)
qed

theorem missing_local_file_is_retried_witness:
  "(\<exists>w'. upload_file (example_env []) ''missing.txt'' None None True world0 =
             (Inl (exhausted ''upload_file'' 6
                (Some (DriveAPIError ''Local file not found: missing.txt'' None))), w')
           \<and> starts (Upload_file ''missing.txt'' None) (trace w') = 6
           \<and> nsleeps (trace w') = 5 \<and> remote w' = 0)
       \<and> (\<exists>w'. update_file (example_env []) ''abc123'' ''missing.txt'' None world0 =
             (Inl (exhausted ''update_file'' 6
                (Some (DriveAPIError ''Local file not found: missing.txt'' None))), w')
           \<and> starts (Update_file ''abc123'' ''missing.txt'') (trace w') = 6
           \<and> nsleeps (trace w') = 5 \<and> remote w' = 0)"
proof -
  have m: "\<not> path_exists (example_env []) ''missing.txt''"
    and rd: "\<forall>i. 0 \<le> random_draw (example_env []) i"
    by (simp_all add: example_env_def)
  show ?thesis
    using missing_local_file_is_retried [OF m rd, of None None True world0 "''abc123''"]
    by (auto simp add: world0_def)
qed


subsection \<open>Backoff growth\<close>







subsection \<open>Operations that succeed at the first attempt\<close>

lemma retry_loop_first_success:
  assumes "fn w = (Inr r, w1)" and "0 < max_attempts P"
  shows "retry_loop P env fname fn 0 b last_exc w = (Inr r, w1)"
  using assms by (subst retry_loop.simps) simp

lemma list_files_success:
  assumes "files_list env q n (remote w) = (Inr ms, s)"
  shows "list_files env q n w =
           (Inr ms, w\<lparr>trace := trace w @ [Start (List_files q n), Request (List_files q n)],
                       remote := s\<rparr>)"
  unfolding list_files_def retry_on_transient_def
  by (rule retry_loop_first_success)
     (simp_all add: list_files_body_def assms emit_def default_params_def)

lemma update_file_success:
  assumes "path_exists env local_path"
    and "files_update env file_id local_path mime_type (remote w) = (Inr resp, s)"
  shows "update_file env file_id local_path mime_type w =
           (Inr resp, w\<lparr>trace := trace w @ [Start (Update_file file_id local_path),
                                               Request (Update_file file_id local_path)],
                         remote := s\<rparr>)"
  unfolding update_file_def retry_on_transient_def
  by (rule retry_loop_first_success)
     (simp_all add: update_file_body_def assms emit_def default_params_def)

lemma upload_file_success:
  assumes "path_exists env local_path"
    and "files_create env (path_name env local_path) (body_parent parent_id) local_path
           mime_type resumable (remote w) = (Inr resp, s)"
  shows "upload_file env local_path parent_id mime_type resumable w =
           (Inr resp, w\<lparr>trace := trace w @ [Start (Upload_file local_path parent_id),
                                               Request (Upload_file local_path parent_id)],
                         remote := s\<rparr>)"
  unfolding upload_file_def retry_on_transient_def
  by (rule retry_loop_first_success)
     (simp_all add: upload_file_body_def assms emit_def default_params_def)

subsection \<open>What a lookup leaves in the trace\<close>

lemma extends_by_refl: "extends_by Q w w"
  by (simp add: extends_by_def)

lemma extends_by_trans: "extends_by Q a b \<Longrightarrow> extends_by Q b c \<Longrightarrow> extends_by Q a c"
  by (auto simp add: extends_by_def)

lemma extends_by_mono: "extends_by Q a b \<Longrightarrow> (\<And>e. Q e \<Longrightarrow> Q' e) \<Longrightarrow> extends_by Q' a b"
  by (auto simp add: extends_by_def list_all_iff)

lemma extends_by_sleep:
  assumes "\<And>n b d. Q (Sleep n b d)"
  shows "extends_by Q w (snd (backoff_sleep P env n b w))"
  using assms by (simp add: extends_by_def backoff_sleep_trace)

lemma retry_extends_by:
  assumes "\<And>w. extends_by Q w (snd (fn w))" and "\<And>n b d. Q (Sleep n b d)"
  shows "extends_by Q w (snd (retry_on_transient P env fname fn w))"
  unfolding retry_on_transient_def
  by (rule retry_loop_rel [where R = "extends_by Q"])
     (auto intro: extends_by_refl extends_by_trans extends_by_sleep assms)

lemma lookup_event_not_mutating: "lookup_event q e \<Longrightarrow> \<not> mutating_event e"
  by (cases e) (auto simp add: lookup_event_def)

lemma find_file_by_name_extends:
  "extends_by (lookup_event (Some (name_query name parent_id))) w
     (snd (find_file_by_name env name parent_id w))"
  unfolding find_file_by_name_def list_files_def
  by (rule retry_extends_by)
     (simp_all add: list_files_body_def extends_by_def lookup_event_def split: prod.splits)

lemma upsert_dry_run_world:
  "snd (upsert_file_by_path env local_path parent_id conflict_policy True w) =
   snd (find_file_by_name env (path_name env local_path) parent_id w)"
  by (simp add: upsert_file_by_path_def Let_def split: prod.splits sum.splits list.splits)


subsection \<open>The example environment\<close>

lemma example_find:
  "find_file_by_name (example_env fr) name parent_id w =
     (Inr fr, w\<lparr>trace := trace w @ [Start (List_files (Some (name_query name parent_id)) 100),
                                       Request (List_files (Some (name_query name parent_id)) 100)],
                 remote := remote w\<rparr>)"
  unfolding find_file_by_name_def
  by (rule list_files_success) (simp add: example_env_def)

lemma example_names:
  "path_name (example_env fr) ''docs/report.txt'' = ''report.txt''"
  "path_name (example_env fr) ''docs/notes.txt'' = ''notes.txt''"
  "path_name (example_env fr) ''docs/broken.lnk'' = ''broken.lnk''"
  "path_name (example_env fr) ''single/report.txt'' = ''report.txt''"
  by (simp_all add: example_env_def base_name_def)

lemma report_query:
  "name_query ''report.txt'' None = ''name = '' @ [CHR 0x27] @ ''report.txt'' @ [CHR 0x27]"
  by (simp add: name_query_def escape_quotes_def)

lemma example_single:
  "path_exists (example_env fr) ''single''"
  "path_is_dir (example_env fr) ''single''"
  "rglob_sorted (example_env fr) ''single'' = [''single/report.txt'']"
  "\<not> path_is_dir (example_env fr) ''single/report.txt''"
  by (simp_all add: example_env_def)


lemma example_docs:
  "path_exists (example_env fr) ''docs''"
  "path_is_dir (example_env fr) ''docs''"
  "regular_files (example_env fr) ''docs'' = [''docs/broken.lnk'', ''docs/notes.txt'', ''docs/report.txt'']"
  by (simp_all add: example_env_def regular_files_def)

subsection \<open>Dry-run purity\<close>

text \<open>
  C1: for every local path, parent id and conflict policy, \<^verbatim>\<open>upsert_file_by_path\<close> with
  \<^verbatim>\<open>dry_run=True\<close> only appends to the trace, and every event it appends is a sleep of the
  retry wrapper or the start or the request of the \<^verbatim>\<open>list_files\<close> call that
  \<^verbatim>\<open>find_file_by_name\<close> makes. No body of \<^verbatim>\<open>upload_file\<close>, \<^verbatim>\<open>update_file\<close>,
  \<^verbatim>\<open>create_folder\<close> or \<^verbatim>\<open>delete_file\<close> is entered and no such request is executed.
\<close>

theorem dry_run_purity:
  "\<exists>evs. trace (snd (upsert_file_by_path env local_path parent_id conflict_policy True w)) =
            trace w @ evs
         \<and> (\<forall>e\<in>set evs. \<not> mutating_event e
               \<and> (is_sleep e
                  \<or> e = Start (List_files (Some (name_query (path_name env local_path) parent_id)) 100)
                  \<or> e = Request (List_files (Some (name_query (path_name env local_path) parent_id)) 100)))
         \<and> (\<forall>c. mutating c \<longrightarrow> starts c (trace w @ evs) = starts c (trace w)
                               \<and> requests c (trace w @ evs) = requests c (trace w))"
proof -
  let ?q = "Some (name_query (path_name env local_path) parent_id)"
  obtain evs where t: "trace (snd (find_file_by_name env (path_name env local_path) parent_id w)) =
      trace w @ evs" and q: "list_all (lookup_event ?q) evs"
    using find_file_by_name_extends [of "path_name env local_path" parent_id w env]
    by (auto simp add: extends_by_def)
  have a: "\<forall>e\<in>set evs. \<not> mutating_event e \<and> (is_sleep e \<or> e = Start (List_files ?q 100)
              \<or> e = Request (List_files ?q 100))"
    using q lookup_event_not_mutating by (auto simp add: list_all_iff lookup_event_def)
  have "starts c evs = 0 \<and> requests c evs = 0" if "mutating c" for c
    using a that by (induction evs) (auto simp add: starts_def requests_def)
  then show ?thesis using t a by (auto simp add: upsert_dry_run_world)
qed


theorem dry_run_purity_witness:
  "trace (snd (upsert_file_by_path (example_env [[(''id'', ''abc123''), (''name'', ''report.txt'')]])
       ''docs/report.txt'' None ''overwrite'' True world0)) =
     [Start (List_files (Some (''name = '' @ [CHR 0x27] @ ''report.txt'' @ [CHR 0x27])) 100),
      Request (List_files (Some (''name = '' @ [CHR 0x27] @ ''report.txt'' @ [CHR 0x27])) 100)]
   \<and> starts (Update_file ''abc123'' ''docs/report.txt'')
        (trace (snd (upsert_file_by_path (example_env [[(''id'', ''abc123''), (''name'', ''report.txt'')]])
       ''docs/report.txt'' None ''overwrite'' True world0))) = 0"
proof -
  let ?env = "example_env [[(''id'', ''abc123''), (''name'', ''report.txt'')]]"
  have t: "trace (snd (upsert_file_by_path ?env ''docs/report.txt'' None ''overwrite'' True world0)) =
     [Start (List_files (Some (''name = '' @ [CHR 0x27] @ ''report.txt'' @ [CHR 0x27])) 100),
      Request (List_files (Some (''name = '' @ [CHR 0x27] @ ''report.txt'' @ [CHR 0x27])) 100)]"
    by (simp add: upsert_dry_run_world example_find example_names report_query world0_def)
  obtain evs where e: "trace (snd (upsert_file_by_path ?env ''docs/report.txt'' None ''overwrite'' True world0)) =
            trace world0 @ evs"
    and m: "\<forall>c. mutating c \<longrightarrow> starts c (trace world0 @ evs) = starts c (trace world0)
                               \<and> requests c (trace world0 @ evs) = requests c (trace world0)"
    using dry_run_purity [of ?env "''docs/report.txt''" None "''overwrite''" world0] by blast
  have "starts (Update_file ''abc123'' ''docs/report.txt'') (trace world0 @ evs) =
        starts (Update_file ''abc123'' ''docs/report.txt'') (trace world0)"
    using m by simp
  then show ?thesis using t e by (simp add: world0_def)
qed

subsection \<open>Unrecognised conflict policies\<close>




subsection \<open>Idempotent skip\<close>

text \<open>
  C8: for every local path and parent id whose name lookup returns, whenever it is made, a
  non-empty match list whose first match has the id \<open>file_id\<close>, calling
  \<^verbatim>\<open>upsert_file_by_path\<close> with \<^verbatim>\<open>conflict_policy="skip"\<close> \<open>n\<close> times in a row returns
  \<open>n\<close> times the same result \<^verbatim>\<open>{"action": "skip", "file_id": file_id}\<close>, and no event of a
  mutating operation is recorded on any of the calls, with or without \<^verbatim>\<open>dry_run\<close>.
\<close>

theorem skip_is_idempotent:
  assumes look: "\<And>w. \<exists>m ms w1.
      find_file_by_name env (path_name env local_path) parent_id w = (Inr (m # ms), w1)
      \<and> map_of m ''id'' = Some file_id"
  shows "\<exists>w' evs. repeat_call n (upsert_file_by_path env local_path parent_id ''skip'' dry_run) w =
             (replicate n (Inr [(''action'', ''skip''), (''file_id'', file_id)]), w')
           \<and> trace w' = trace w @ evs \<and> (\<forall>e\<in>set evs. \<not> mutating_event e)"
proof (induction n arbitrary: w)
  case 0
  show ?case by simp
next
  case (Suc n)
  let ?q = "Some (name_query (path_name env local_path) parent_id)"
  obtain m ms w1 where
    f: "find_file_by_name env (path_name env local_path) parent_id w = (Inr (m # ms), w1)"
    and i: "map_of m ''id'' = Some file_id"
    using look by blast
  have u: "upsert_file_by_path env local_path parent_id ''skip'' dry_run w =
             (Inr [(''action'', ''skip''), (''file_id'', file_id)], w1)"
    using f i by (simp add: upsert_file_by_path_def dict_get_def)
  obtain evs1 where t1: "trace w1 = trace w @ evs1" and q1: "list_all (lookup_event ?q) evs1"
    using find_file_by_name_extends [of "path_name env local_path" parent_id w env] f
    by (auto simp add: extends_by_def)
  obtain w' evs2 where
    r: "repeat_call n (upsert_file_by_path env local_path parent_id ''skip'' dry_run) w1 =
          (replicate n (Inr [(''action'', ''skip''), (''file_id'', file_id)]), w')"
    and t2: "trace w' = trace w1 @ evs2" and q2: "\<forall>e\<in>set evs2. \<not> mutating_event e"
    using Suc.IH [of w1] by blast
  have "repeat_call (Suc n) (upsert_file_by_path env local_path parent_id ''skip'' dry_run) w =
          (replicate (Suc n) (Inr [(''action'', ''skip''), (''file_id'', file_id)]), w')"
    using u r by simp
  moreover have "trace w' = trace w @ (evs1 @ evs2)" using t1 t2 by simp
  moreover have "\<forall>e\<in>set (evs1 @ evs2). \<not> mutating_event e"
    using q1 q2 lookup_event_not_mutating by (auto simp add: list_all_iff)
  ultimately show ?case by blast
qed

theorem skip_is_idempotent_witness:
  "fst (repeat_call 3 (upsert_file_by_path
          (example_env [[(''id'', ''abc123''), (''name'', ''report.txt'')]])
          ''docs/report.txt'' None ''skip'' False) world0) =
     [Inr [(''action'', ''skip''), (''file_id'', ''abc123'')],
      Inr [(''action'', ''skip''), (''file_id'', ''abc123'')],
      Inr [(''action'', ''skip''), (''file_id'', ''abc123'')]]"
proof -
  let ?env = "example_env [[(''id'', ''abc123''), (''name'', ''report.txt'')]]"
  have look: "\<And>w. \<exists>m ms w1.
      find_file_by_name ?env (path_name ?env ''docs/report.txt'') None w = (Inr (m # ms), w1)
      \<and> map_of m ''id'' = Some ''abc123''"
    by (simp add: example_find)
  show ?thesis
    using skip_is_idempotent [of ?env "''docs/report.txt''" None "''abc123''" 3 False world0, OF look]
    by (auto simp add: numeral_3_eq_3)
qed

subsection \<open>Overwriting the first match\<close>

text \<open>
  C7, as stated, does not hold: with one match \<^verbatim>\<open>"abc123"\<close>, policy \<^verbatim>\<open>"overwrite"\<close> and no
  dry run, the result is what the update request returned (its fields are
  \<^verbatim>\<open>id\<close>, \<^verbatim>\<open>name\<close>, \<^verbatim>\<open>modifiedTime\<close>); it records no action \<^verbatim>\<open>"update"\<close>.
\<close>

theorem overwrite_result_counterexample:
  "fst (upsert_file_by_path (example_env [[(''id'', ''abc123''), (''name'', ''report.txt'')]])
       ''docs/report.txt'' None ''overwrite'' False world0) =
     Inr [(''id'', ''abc123''), (''name'', ''report.txt''), (''modifiedTime'', ''t0'')]
   \<and> map_of [(''id'', ''abc123''), (''name'', ''report.txt''), (''modifiedTime'', ''t0'')] ''action''
       \<noteq> Some ''update''"
proof -
  let ?env = "example_env [[(''id'', ''abc123''), (''name'', ''report.txt'')]]"
  have ex: "path_exists ?env ''docs/report.txt''" by (simp add: example_env_def)
  have upd: "files_update ?env ''abc123'' ''docs/report.txt'' None s =
      (Inr [(''id'', ''abc123''), (''name'', ''report.txt''), (''modifiedTime'', ''t'' @ str_nat s)], Suc s)" for s
    by (simp add: example_env_def base_name_def)
  show ?thesis
    by (simp add: upsert_file_by_path_def example_find example_names dict_get_def
        update_file_success [OF ex upd] world0_def str_nat.simps Let_def)
qed


text \<open>
  C7, amended: when the name lookup returns a match list whose first match has the id
  \<open>file_id\<close>, the local file exists and the update request succeeds at the first attempt,
  \<^verbatim>\<open>upsert_file_by_path\<close> with policy \<^verbatim>\<open>"overwrite"\<close> and \<^verbatim>\<open>dry_run=False\<close> enters
  \<^verbatim>\<open>update_file\<close> exactly once, with that file id, executes its request once, and returns
  the response of the remote store unchanged.
\<close>

theorem overwrite_updates_first_match:
  assumes look: "find_file_by_name env (path_name env local_path) parent_id w = (Inr (m # ms), w1)"
    and ident: "map_of m ''id'' = Some file_id"
    and ex: "path_exists env local_path"
    and upd: "files_update env file_id local_path None (remote w1) = (Inr resp, s)"
  shows "upsert_file_by_path env local_path parent_id ''overwrite'' False w =
           (Inr resp,
            w1\<lparr>trace := trace w1 @ [Start (Update_file file_id local_path),
                                      Request (Update_file file_id local_path)],
                remote := s\<rparr>)"
  using look ident update_file_success [OF ex upd]
  by (simp add: upsert_file_by_path_def dict_get_def)

theorem overwrite_updates_first_match_witness:
  "upsert_file_by_path (example_env [[(''id'', ''abc123''), (''name'', ''report.txt'')]])
       ''docs/report.txt'' None ''overwrite'' False world0 =
     (Inr [(''id'', ''abc123''), (''name'', ''report.txt''), (''modifiedTime'', ''t0'')],
      \<lparr>remote = 1, draws = 0,
       trace = [Start (List_files (Some (''name = '' @ [CHR 0x27] @ ''report.txt'' @ [CHR 0x27])) 100),
                Request (List_files (Some (''name = '' @ [CHR 0x27] @ ''report.txt'' @ [CHR 0x27])) 100),
                Start (Update_file ''abc123'' ''docs/report.txt''),
                Request (Update_file ''abc123'' ''docs/report.txt'')]\<rparr>)"
proof -
  let ?env = "example_env [[(''id'', ''abc123''), (''name'', ''report.txt'')]]"
  let ?w1 = "\<lparr>remote = 0, draws = 0,
       trace = [Start (List_files (Some (''name = '' @ [CHR 0x27] @ ''report.txt'' @ [CHR 0x27])) 100),
                Request (List_files (Some (''name = '' @ [CHR 0x27] @ ''report.txt'' @ [CHR 0x27])) 100)]\<rparr>"
  have f: "find_file_by_name ?env (path_name ?env ''docs/report.txt'') None world0 =
     (Inr ([(''id'', ''abc123''), (''name'', ''report.txt'')] # []), ?w1)"
    by (simp add: example_find example_names report_query world0_def)
  have i: "map_of [(''id'', ''abc123''), (''name'', ''report.txt'')] ''id'' = Some ''abc123''"
    by simp
  have ex: "path_exists ?env ''docs/report.txt''" by (simp add: example_env_def)
  have upd: "files_update ?env ''abc123'' ''docs/report.txt'' None (remote ?w1) =
      (Inr [(''id'', ''abc123''), (''name'', ''report.txt''), (''modifiedTime'', ''t0'')], 1)"
    by (simp add: example_env_def base_name_def str_nat.simps)
  show ?thesis
    using overwrite_updates_first_match [OF f i ex upd] by simp
qed

subsection \<open>The dry run of a single file\<close>

lemma upsert_dry_run_labels:
  assumes "upsert_file_by_path env local_path parent_id conflict_policy True w = (Inr res, w')"
  shows "map_of res ''action'' \<in> {Some ''create'', Some ''update'', Some ''create_new'', Some ''skip''}"
  using assms
  by (auto simp add: upsert_file_by_path_def Let_def
      split: prod.splits sum.splits list.splits if_splits)

text \<open>
  C6, as stated, does not hold: the dry run over a directory with the single file
  \<^verbatim>\<open>report.txt\<close> and no remote match returns one success entry whose action is
  \<^verbatim>\<open>"create"\<close>, not \<^verbatim>\<open>"dry_run_create"\<close>.
\<close>

theorem dry_run_label_counterexample:
  "fst (sync_folder (example_env []) ''single'' None ''upsert'' None True world0) =
     Inr [Result_entry ''single/report.txt'' [(''action'', ''create''), (''name'', ''report.txt'')]]
   \<and> map_of [(''action'', ''create''), (''name'', ''report.txt'')] ''action'' \<noteq> Some ''dry_run_create''"
  by (simp add: sync_folder_def example_single upsert_file_by_path_def example_find example_names
      Let_def)

text \<open>
  C6, amended: when \<^verbatim>\<open>sync_folder\<close> runs with \<^verbatim>\<open>dry_run=True\<close> over a directory whose
  listing is a single regular file that passes the filter, and the name lookup returns no
  match, the returned list is exactly one success entry, whose result is
  \<^verbatim>\<open>{"action": "create", "name": <base name>}\<close>. The action of every dry-run result is one
  of \<^verbatim>\<open>create\<close>, \<^verbatim>\<open>update\<close>, \<^verbatim>\<open>create_new\<close> and \<^verbatim>\<open>skip\<close>.
\<close>

theorem dry_run_single_file:
  assumes dir: "path_exists env local_dir" "path_is_dir env local_dir"
    and one: "rglob_sorted env local_dir = [p]" "\<not> path_is_dir env p"
    and flt: "filter_includes filters p = Inr True"
    and look: "find_file_by_name env (path_name env p) parent_id w = (Inr [], w1)"
  shows "sync_folder env local_dir parent_id ''upsert'' filters True w =
           (Inr [Result_entry p [(''action'', ''create''), (''name'', path_name env p)]], w1)
       \<and> (\<forall>local_path conflict_policy w0 res w'.
            upsert_file_by_path env local_path parent_id conflict_policy True w0 = (Inr res, w')
            \<longrightarrow> map_of res ''action''
                  \<in> {Some ''create'', Some ''update'', Some ''create_new'', Some ''skip''})"
proof -
  have "upsert_file_by_path env p parent_id ''overwrite'' True w =
          (Inr [(''action'', ''create''), (''name'', path_name env p)], w1)"
    using look by (simp add: upsert_file_by_path_def)
  then have "sync_folder env local_dir parent_id ''upsert'' filters True w =
           (Inr [Result_entry p [(''action'', ''create''), (''name'', path_name env p)]], w1)"
    using dir one flt by (simp add: sync_folder_def)
  then show ?thesis using upsert_dry_run_labels by blast
qed

theorem dry_run_single_file_witness:
  "sync_folder (example_env []) ''single'' None ''upsert'' None True world0 =
     (Inr [Result_entry ''single/report.txt'' [(''action'', ''create''), (''name'', ''report.txt'')]],
      \<lparr>remote = 0, draws = 0,
       trace = [Start (List_files (Some (''name = '' @ [CHR 0x27] @ ''report.txt'' @ [CHR 0x27])) 100),
                Request (List_files (Some (''name = '' @ [CHR 0x27] @ ''report.txt'' @ [CHR 0x27])) 100)]\<rparr>)"
proof -
  let ?env = "example_env []"
  let ?w1 = "\<lparr>remote = 0, draws = 0,
       trace = [Start (List_files (Some (''name = '' @ [CHR 0x27] @ ''report.txt'' @ [CHR 0x27])) 100),
                Request (List_files (Some (''name = '' @ [CHR 0x27] @ ''report.txt'' @ [CHR 0x27])) 100)]\<rparr>"
  have dir: "path_exists ?env ''single''" "path_is_dir ?env ''single''"
    and one: "rglob_sorted ?env ''single'' = [''single/report.txt'']"
      "\<not> path_is_dir ?env ''single/report.txt''"
    by (simp_all add: example_single)
  have flt: "filter_includes None ''single/report.txt'' = Inr True" by simp
  have look: "find_file_by_name ?env (path_name ?env ''single/report.txt'') None world0 = (Inr [], ?w1)"
    by (simp add: example_find example_names report_query world0_def)
  show ?thesis
    using dry_run_single_file [OF dir one flt look] by (simp add: example_names)
qed

subsection \<open>Partial-failure isolation\<close>

text \<open>
  Directories are skipped, so a pass is the loop over the regular files of the listing. When
  the filter raises on none of them, the pass returns one entry for every upsert it made, in
  order; when it raises, the pass ends there with the filter's exception.
\<close>

lemma sync_loop_skip_dirs:
  "sync_loop env parent_id mode filters dry_run ps results w =
   sync_loop env parent_id mode filters dry_run (filter (\<lambda>p. \<not> path_is_dir env p) ps) results w"
proof (induction ps arbitrary: results w)
  case Nil
  show ?case by simp
next
  case (Cons p ps)
  show ?case
  proof (cases "path_is_dir env p")
    case True
    then show ?thesis using Cons.IH by simp
  next
    case False
    obtain r w1 where u: "upsert_file_by_path env p parent_id ''overwrite'' dry_run w = (r, w1)"
      by force
    show ?thesis
      using False u Cons.IH [of results w] Cons.IH [of "results @ [entry_of (p, r)]" w1]
      by (cases r) (auto split: sum.splits bool.splits)
  qed
qed

lemma sync_folder_regular:
  assumes "path_exists env local_dir" "path_is_dir env local_dir"
  shows "sync_folder env local_dir parent_id mode filters dry_run w =
         sync_loop env parent_id mode filters dry_run (regular_files env local_dir) [] w"
  using assms sync_loop_skip_dirs [of env parent_id mode filters dry_run "rglob_sorted env local_dir" "[]" w]
  by (simp add: sync_folder_def regular_files_def)

lemma regular_files_not_dir: "p \<in> set (regular_files env local_dir) \<Longrightarrow> \<not> path_is_dir env p"
  by (simp add: regular_files_def)

lemma sync_loop_records:
  assumes "\<forall>p\<in>set ps. \<not> path_is_dir env p"
    and "\<forall>p\<in>set ps. \<not> isl (filter_includes filters p)"
  shows "sync_loop env parent_id ''upsert'' filters dry_run ps results w =
           (Inr (results @ map entry_of (fst (upsert_run env parent_id dry_run (included filters ps) w))),
            snd (upsert_run env parent_id dry_run (included filters ps) w))"
  using assms
proof (induction ps arbitrary: results w)
  case Nil
  show ?case by (simp add: included_def)
next
  case (Cons p ps)
  have nd: "\<not> path_is_dir env p" using Cons.prems by simp
  have rest: "\<forall>p\<in>set ps. \<not> path_is_dir env p" "\<forall>p\<in>set ps. \<not> isl (filter_includes filters p)"
    using Cons.prems by simp_all
  obtain inc where inc: "filter_includes filters p = Inr inc"
    using Cons.prems(2) by (cases "filter_includes filters p") auto
  show ?case
  proof (cases inc)
    case False
    then have "included filters (p # ps) = included filters ps"
      using inc by (simp add: included_def)
    moreover have "sync_loop env parent_id ''upsert'' filters dry_run (p # ps) results w =
                   sync_loop env parent_id ''upsert'' filters dry_run ps results w"
      using nd inc False by simp
    ultimately show ?thesis using Cons.IH [OF rest, of results w] by simp
  next
    case True
    obtain r w1 where u: "upsert_file_by_path env p parent_id ''overwrite'' dry_run w = (r, w1)"
      by force
    have i: "included filters (p # ps) = p # included filters ps"
      using inc True by (simp add: included_def)
    have step: "sync_loop env parent_id ''upsert'' filters dry_run (p # ps) results w =
                sync_loop env parent_id ''upsert'' filters dry_run ps (results @ [entry_of (p, r)]) w1"
      using nd inc True u by (cases r) simp_all
    have run: "upsert_run env parent_id dry_run (p # included filters ps) w =
               ((p, r) # fst (upsert_run env parent_id dry_run (included filters ps) w1),
                snd (upsert_run env parent_id dry_run (included filters ps) w1))"
      using u by (simp split: prod.splits)
    show ?thesis
      using step run i Cons.IH [OF rest, of "results @ [entry_of (p, r)]" w1] by simp
  qed
qed

lemma sync_loop_aborts:
  assumes "\<forall>q\<in>set pre. \<not> path_is_dir env q"
    and "\<forall>q\<in>set pre. \<not> isl (filter_includes filters q)"
    and "\<not> path_is_dir env p" and "filter_includes filters p = Inl e"
  shows "sync_loop env parent_id ''upsert'' filters dry_run (pre @ p # rest) results w =
           (Inl e, snd (upsert_run env parent_id dry_run (included filters pre) w))"
  using assms(1,2)
proof (induction pre arbitrary: results w)
  case Nil
  show ?case using assms(3,4) by (simp add: included_def)
next
  case (Cons q qs)
  have nd: "\<not> path_is_dir env q" using Cons.prems by simp
  have rest: "\<forall>q\<in>set qs. \<not> path_is_dir env q" "\<forall>q\<in>set qs. \<not> isl (filter_includes filters q)"
    using Cons.prems by simp_all
  obtain inc where inc: "filter_includes filters q = Inr inc"
    using Cons.prems(2) by (cases "filter_includes filters q") auto
  show ?case
  proof (cases inc)
    case False
    then have "included filters (q # qs) = included filters qs"
      using inc by (simp add: included_def)
    moreover have "sync_loop env parent_id ''upsert'' filters dry_run ((q # qs) @ p # rest) results w =
                   sync_loop env parent_id ''upsert'' filters dry_run (qs @ p # rest) results w"
      using nd inc False by simp
    ultimately show ?thesis using Cons.IH [OF rest, of results w] by simp
  next
    case True
    obtain r w1 where u: "upsert_file_by_path env q parent_id ''overwrite'' dry_run w = (r, w1)"
      by force
    have i: "included filters (q # qs) = q # included filters qs"
      using inc True by (simp add: included_def)
    have step: "sync_loop env parent_id ''upsert'' filters dry_run ((q # qs) @ p # rest) results w =
                sync_loop env parent_id ''upsert'' filters dry_run (qs @ p # rest)
                  (results @ [entry_of (q, r)]) w1"
      using nd inc True u by (cases r) simp_all
    have run: "snd (upsert_run env parent_id dry_run (q # included filters qs) w) =
               snd (upsert_run env parent_id dry_run (included filters qs) w1)"
      using u by (simp split: prod.splits)
    show ?thesis
      using step run i Cons.IH [OF rest, of "results @ [entry_of (q, r)]" w1] by simp
  qed
qed

lemma upsert_run_paths: "map fst (fst (upsert_run env parent_id dry_run ps w)) = ps"
proof (induction ps arbitrary: w)
  case Nil
  show ?case by simp
next
  case (Cons p ps)
  obtain r w1 where u: "upsert_file_by_path env p parent_id ''overwrite'' dry_run w = (r, w1)"
    by force
  show ?case using u Cons.IH [of w1] by (auto split: prod.splits)
qed

lemma entry_of_path: "entry_path (entry_of out) = fst out"
  by (cases out rule: entry_of.cases) simp_all

lemma entry_of_error: "is_error_entry (entry_of out) = raised out"
  by (cases out rule: entry_of.cases) simp_all


text \<open>The example runs: a store that fails by its state, and a dangling link.\<close>

lemma flaky_outcomes:
  "fst (upsert_run flaky_env None False [''inbox/a.txt'', ''inbox/b.txt'', ''inbox/c.txt''] world0) =
     [(''inbox/a.txt'', Inr [(''id'', ''new0''), (''name'', ''a.txt'')]),
      (''inbox/b.txt'', Inl (DriveAPIError ''Function upload_file failed after 6 attempts''
                             (Some (ExternalError ''HttpError 503'')))),
      (''inbox/c.txt'', Inr [(''id'', ''new7''), (''name'', ''c.txt'')])]"
  by (simp add: upsert_file_by_path_def find_file_by_name_def list_files_def list_files_body_def
      upload_file_def upload_file_body_def retry_on_transient_def retry_loop.simps
      flaky_env_def example_env_def default_params_def world0_def backoff_sleep_def
      random_uniform_def uniform_value_def fadd_def fsub_def fmul_def round_float_def
      unit_roundoff_def time_sleep_def sleep_nanoseconds_def exhausted_def str_nat.simps
      body_parent_def base_name_def emit_def Let_def)


lemma flaky_inbox:
  "path_exists flaky_env ''inbox''"
  "path_is_dir flaky_env ''inbox''"
  "regular_files flaky_env ''inbox'' = [''inbox/a.txt'', ''inbox/b.txt'', ''inbox/c.txt'']"
  by (simp_all add: flaky_env_def regular_files_def)

lemma docs_outcomes:
  "fst (upsert_run (example_env []) None False
          [''docs/broken.lnk'', ''docs/notes.txt'', ''docs/report.txt''] world0) =
     [(''docs/broken.lnk'', Inl (DriveAPIError ''Function upload_file failed after 6 attempts''
                                 (Some (DriveAPIError ''Local file not found: docs/broken.lnk'' None)))),
      (''docs/notes.txt'', Inr [(''id'', ''new0''), (''name'', ''notes.txt'')]),
      (''docs/report.txt'', Inr [(''id'', ''new1''), (''name'', ''report.txt'')])]"
  by (simp add: upsert_file_by_path_def find_file_by_name_def list_files_def list_files_body_def
      upload_file_def upload_file_body_def retry_on_transient_def retry_loop.simps
      example_env_def default_params_def world0_def backoff_sleep_def
      random_uniform_def uniform_value_def fadd_def fsub_def fmul_def round_float_def
      unit_roundoff_def time_sleep_def sleep_nanoseconds_def exhausted_def str_nat.simps
      body_parent_def base_name_def emit_def Let_def)

lemma docs_prefix_remote:
  "remote (snd (upsert_run (example_env []) None False
          [''docs/broken.lnk'', ''docs/notes.txt''] world0)) = 1"
  by (simp add: upsert_file_by_path_def find_file_by_name_def list_files_def list_files_body_def
      upload_file_def upload_file_body_def retry_on_transient_def retry_loop.simps
      example_env_def default_params_def world0_def backoff_sleep_def
      random_uniform_def uniform_value_def fadd_def fsub_def fmul_def round_float_def
      unit_roundoff_def time_sleep_def sleep_nanoseconds_def exhausted_def str_nat.simps
      body_parent_def base_name_def emit_def Let_def)

text \<open>
  C2: for every existing local directory whose \<open>N\<close> regular files all pass the filter,
  \<^verbatim>\<open>sync_folder\<close> in mode \<^verbatim>\<open>"upsert"\<close> returns, and never raises: its list has exactly one
  entry per regular file, in the order of the listing, and the entry of a file records the
  outcome its upsert had in the pass, an error record where the upsert raised and a success
  record where it returned. The error records are as many as the upserts that raised;
  where exactly one upsert of the pass raised, exactly one entry is an error record and
  the other \<open>N - 1\<close> are success records.
\<close>

theorem partial_failure_isolation:
  assumes dir: "path_exists env local_dir" "path_is_dir env local_dir"
    and pass: "\<forall>p\<in>set (regular_files env local_dir). filter_includes filters p = Inr True"
  shows "\<exists>outs w'.
           upsert_run env parent_id dry_run (regular_files env local_dir) w = (outs, w')
         \<and> sync_folder env local_dir parent_id ''upsert'' filters dry_run w =
               (Inr (map entry_of outs), w')
         \<and> length (map entry_of outs) = length (regular_files env local_dir)
         \<and> map entry_path (map entry_of outs) = regular_files env local_dir
         \<and> length (filter is_error_entry (map entry_of outs)) = length (filter raised outs)
         \<and> (length (filter raised outs) = 1 \<longrightarrow>
               length (filter is_error_entry (map entry_of outs)) = 1
             \<and> length (filter (\<lambda>e. \<not> is_error_entry e) (map entry_of outs)) =
                 length (regular_files env local_dir) - 1)"
proof -
  let ?files = "regular_files env local_dir"
  obtain outs w' where run: "upsert_run env parent_id dry_run ?files w = (outs, w')"
    by force
  have nd: "\<forall>p\<in>set ?files. \<not> path_is_dir env p" by (simp add: regular_files_not_dir)
  have ok: "\<forall>p\<in>set ?files. \<not> isl (filter_includes filters p)" using pass by simp
  have inc: "included filters ?files = ?files" using pass by (simp add: included_def)
  have res: "sync_folder env local_dir parent_id ''upsert'' filters dry_run w =
               (Inr (map entry_of outs), w')"
    using sync_loop_records [OF nd ok, of parent_id dry_run "[]" w] run inc
    by (simp add: sync_folder_regular [OF dir])
  have paths: "map fst outs = ?files"
    using upsert_run_paths [of env parent_id dry_run ?files w] run by simp
  then have len: "length outs = length ?files" by (metis length_map)
  have ep: "map entry_path (map entry_of outs) = ?files"
    using paths by (simp add: entry_of_path comp_def)
  have err: "filter is_error_entry (map entry_of outs) = map entry_of (filter raised outs)"
    by (simp add: filter_map comp_def entry_of_error)
  then have cnt: "length (filter is_error_entry (map entry_of outs)) = length (filter raised outs)"
    by simp
  have "length (filter is_error_entry (map entry_of outs))
          + length (filter (\<lambda>e. \<not> is_error_entry e) (map entry_of outs))
        = length (map entry_of outs)"
    by (rule sum_length_filter_compl)
  moreover have "length (map entry_of outs) = length outs" by simp
  ultimately have rest: "length (filter raised outs) = 1 \<longrightarrow>
      length (filter (\<lambda>e. \<not> is_error_entry e) (map entry_of outs)) = length ?files - 1"
    using cnt len by linarith
  show ?thesis using run res len ep cnt rest by auto
qed

theorem partial_failure_isolation_witness:
  "fst (sync_folder flaky_env ''inbox'' None ''upsert'' None False world0) =
     Inr [Result_entry ''inbox/a.txt'' [(''id'', ''new0''), (''name'', ''a.txt'')],
          Error_entry ''inbox/b.txt''
            (DriveAPIError ''Function upload_file failed after 6 attempts''
               (Some (ExternalError ''HttpError 503''))),
          Result_entry ''inbox/c.txt'' [(''id'', ''new7''), (''name'', ''c.txt'')]]
   \<and> length (filter is_error_entry
        [Result_entry ''inbox/a.txt'' [(''id'', ''new0''), (''name'', ''a.txt'')],
         Error_entry ''inbox/b.txt''
           (DriveAPIError ''Function upload_file failed after 6 attempts''
              (Some (ExternalError ''HttpError 503''))),
         Result_entry ''inbox/c.txt'' [(''id'', ''new7''), (''name'', ''c.txt'')]]) = 1"
proof -
  have pass: "\<forall>p\<in>set (regular_files flaky_env ''inbox''). filter_includes None p = Inr True"
    by simp
  obtain outs w' where
    run: "upsert_run flaky_env None False (regular_files flaky_env ''inbox'') world0 = (outs, w')"
    and res: "sync_folder flaky_env ''inbox'' None ''upsert'' None False world0 =
                (Inr (map entry_of outs), w')"
    and one: "length (filter raised outs) = 1 \<longrightarrow>
                length (filter is_error_entry (map entry_of outs)) = 1
              \<and> length (filter (\<lambda>e. \<not> is_error_entry e) (map entry_of outs)) =
                  length (regular_files flaky_env ''inbox'') - 1"
    using partial_failure_isolation [OF flaky_inbox(1,2) pass, of None False world0] by blast
  have outs: "outs =
     [(''inbox/a.txt'', Inr [(''id'', ''new0''), (''name'', ''a.txt'')]),
      (''inbox/b.txt'', Inl (DriveAPIError ''Function upload_file failed after 6 attempts''
                             (Some (ExternalError ''HttpError 503'')))),
      (''inbox/c.txt'', Inr [(''id'', ''new7''), (''name'', ''c.txt'')])]"
    using run flaky_outcomes by (simp add: flaky_inbox(3))
  have "length (filter raised outs) = 1" by (simp add: outs)
  then have "length (filter is_error_entry (map entry_of outs)) = 1" using one by blast
  then show ?thesis using res by (simp add: outs)
qed

subsection \<open>A failing filter\<close>

lemma sync_loop_raises:
  "(isl (fst (sync_loop env parent_id mode filters dry_run ps results w))
      \<longleftrightarrow> (\<exists>p\<in>set ps. \<not> path_is_dir env p \<and> isl (filter_includes filters p)))
   \<and> (\<forall>e. fst (sync_loop env parent_id mode filters dry_run ps results w) = Inl e
          \<longrightarrow> (\<exists>p\<in>set ps. \<not> path_is_dir env p \<and> filter_includes filters p = Inl e))"
proof (induction ps arbitrary: results w)
  case Nil
  show ?case by simp
next
  case (Cons p ps)
  show ?case
  proof (cases "path_is_dir env p")
    case True
    then show ?thesis using Cons.IH [of results w] by simp
  next
    case False
    show ?thesis
    proof (cases "filter_includes filters p")
      case (Inl e)
      then show ?thesis using False by simp
    next
      case (Inr inc)
      obtain x w1 where u: "upsert_file_by_path env p parent_id ''overwrite'' dry_run w = (x, w1)"
        by force
      show ?thesis
      proof (cases "inc \<and> mode = ''upsert''")
        case False
        then have "sync_loop env parent_id mode filters dry_run (p # ps) results w =
                   sync_loop env parent_id mode filters dry_run ps results w"
          using \<open>\<not> path_is_dir env p\<close> Inr by (auto split: bool.splits)
        then show ?thesis using Cons.IH [of results w] Inr \<open>\<not> path_is_dir env p\<close> by simp
      next
        case True
        define entry where
          "entry = (case x of Inr res \<Rightarrow> Result_entry p res | Inl e \<Rightarrow> Error_entry p e)"
        have "sync_loop env parent_id mode filters dry_run (p # ps) results w =
              sync_loop env parent_id mode filters dry_run ps (results @ [entry]) w1"
          using \<open>\<not> path_is_dir env p\<close> Inr True u by (simp add: entry_def split: sum.splits)
        then show ?thesis
          using Cons.IH [of "results @ [entry]" w1] Inr \<open>\<not> path_is_dir env p\<close> by simp
      qed
    qed
  qed
qed


text \<open>
  C9: on an existing directory, \<^verbatim>\<open>sync_folder\<close> raises if and only if the filter raises on
  one of the regular files, and the exception it raises is then one the filter raised. In
  mode \<^verbatim>\<open>"upsert"\<close>, at the first regular file on which the filter raises the pass ends
  with that exception: the upserts of the included files before it have been made, and no
  result list is returned. When the filter raises on no regular file, every exception an
  upsert raises is caught and recorded as the error entry of its file, and the pass
  returns the entries of all included files.
\<close>

theorem filter_failure_aborts_pass:
  assumes dir: "path_exists env local_dir" "path_is_dir env local_dir"
  shows "(isl (fst (sync_folder env local_dir parent_id mode filters dry_run w))
            \<longleftrightarrow> (\<exists>p\<in>set (regular_files env local_dir). isl (filter_includes filters p)))
       \<and> (\<forall>e. fst (sync_folder env local_dir parent_id mode filters dry_run w) = Inl e
            \<longrightarrow> (\<exists>p\<in>set (regular_files env local_dir). filter_includes filters p = Inl e))
       \<and> (\<forall>pre p rest e.
            regular_files env local_dir = pre @ p # rest
            \<and> (\<forall>q\<in>set pre. \<not> isl (filter_includes filters q))
            \<and> filter_includes filters p = Inl e
          \<longrightarrow> sync_folder env local_dir parent_id ''upsert'' filters dry_run w =
                (Inl e, snd (upsert_run env parent_id dry_run (included filters pre) w)))
       \<and> ((\<forall>p\<in>set (regular_files env local_dir). \<not> isl (filter_includes filters p))
          \<longrightarrow> sync_folder env local_dir parent_id ''upsert'' filters dry_run w =
                (Inr (map entry_of
                   (fst (upsert_run env parent_id dry_run
                      (included filters (regular_files env local_dir)) w))),
                 snd (upsert_run env parent_id dry_run
                      (included filters (regular_files env local_dir)) w)))"
proof -
  let ?files = "regular_files env local_dir"
  have nd: "\<forall>p\<in>set ?files. \<not> path_is_dir env p" by (simp add: regular_files_not_dir)
  have a: "(isl (fst (sync_folder env local_dir parent_id mode filters dry_run w))
            \<longleftrightarrow> (\<exists>p\<in>set ?files. isl (filter_includes filters p)))
       \<and> (\<forall>e. fst (sync_folder env local_dir parent_id mode filters dry_run w) = Inl e
            \<longrightarrow> (\<exists>p\<in>set ?files. filter_includes filters p = Inl e))"
    using dir sync_loop_raises [of env parent_id mode filters dry_run "rglob_sorted env local_dir" "[]" w]
    by (auto simp add: sync_folder_def regular_files_def)
  have b: "sync_folder env local_dir parent_id ''upsert'' filters dry_run w =
                (Inl e, snd (upsert_run env parent_id dry_run (included filters pre) w))"
    if "?files = pre @ p # rest" "\<forall>q\<in>set pre. \<not> isl (filter_includes filters q)"
      "filter_includes filters p = Inl e" for pre p rest e
  proof -
    have "\<forall>q\<in>set pre. \<not> path_is_dir env q" "\<not> path_is_dir env p"
      using nd that(1) by simp_all
    then show ?thesis
      using sync_loop_aborts [of pre env filters p e parent_id dry_run rest "[]" w] that
      by (simp add: sync_folder_regular [OF dir])
  qed
  have c: "sync_folder env local_dir parent_id ''upsert'' filters dry_run w =
                (Inr (map entry_of
                   (fst (upsert_run env parent_id dry_run (included filters ?files) w))),
                 snd (upsert_run env parent_id dry_run (included filters ?files) w))"
    if "\<forall>p\<in>set ?files. \<not> isl (filter_includes filters p)"
    using sync_loop_records [OF nd that, of parent_id dry_run "[]" w]
    by (simp add: sync_folder_regular [OF dir])
  show ?thesis using a b c by blast
qed


theorem filter_failure_aborts_pass_witness:
  "fst (sync_folder (example_env []) ''docs'' None ''upsert'' (Some failing_filter) False world0) =
     Inl (ExternalError ''filter failed'')
   \<and> remote (snd (sync_folder (example_env []) ''docs'' None ''upsert'' (Some failing_filter) False
        world0)) = 1
   \<and> fst (sync_folder (example_env []) ''docs'' None ''upsert'' None False world0) =
     Inr [Error_entry ''docs/broken.lnk''
            (DriveAPIError ''Function upload_file failed after 6 attempts''
               (Some (DriveAPIError ''Local file not found: docs/broken.lnk'' None))),
          Result_entry ''docs/notes.txt'' [(''id'', ''new0''), (''name'', ''notes.txt'')],
          Result_entry ''docs/report.txt'' [(''id'', ''new1''), (''name'', ''report.txt'')]]"
proof -
  let ?env = "example_env []"
  let ?pre = "[''docs/broken.lnk'', ''docs/notes.txt'']"
  have split: "regular_files ?env ''docs'' = ?pre @ ''docs/report.txt'' # []"
    by (simp add: example_docs)
  have ok: "\<forall>q\<in>set ?pre. \<not> isl (filter_includes (Some failing_filter) q)"
    by (simp add: failing_filter_def)
  have bad: "filter_includes (Some failing_filter) ''docs/report.txt'' = Inl (ExternalError ''filter failed'')"
    by (simp add: failing_filter_def)
  have inc: "included (Some failing_filter) ?pre = ?pre"
    by (simp add: included_def failing_filter_def)
  have abort: "sync_folder ?env ''docs'' None ''upsert'' (Some failing_filter) False world0 =
      (Inl (ExternalError ''filter failed''),
       snd (upsert_run ?env None False (included (Some failing_filter) ?pre) world0))"
    using filter_failure_aborts_pass [OF example_docs(1,2), of "[]" None "''upsert''"
        "Some failing_filter" False world0] split ok bad
    by blast
  have none: "\<forall>p\<in>set (regular_files ?env ''docs''). \<not> isl (filter_includes None p)"
    by simp
  have all: "included None ps = ps" for ps
    by (simp add: included_def)
  have records: "sync_folder ?env ''docs'' None ''upsert'' None False world0 =
      (Inr (map entry_of (fst (upsert_run ?env None False
              (included None (regular_files ?env ''docs'')) world0))),
       snd (upsert_run ?env None False (included None (regular_files ?env ''docs'')) world0))"
    using filter_failure_aborts_pass [OF example_docs(1,2), of "[]" None "''upsert''"
        None False world0] none
    by blast
  have p1: "fst (sync_folder ?env ''docs'' None ''upsert'' (Some failing_filter) False world0) =
      Inl (ExternalError ''filter failed'')"
    by (simp only: abort fst_conv)
  have p2: "remote (snd (sync_folder ?env ''docs'' None ''upsert'' (Some failing_filter) False
        world0)) = 1"
    by (simp only: abort snd_conv inc docs_prefix_remote)
  have p3: "fst (sync_folder ?env ''docs'' None ''upsert'' None False world0) =
      Inr (map entry_of
        [(''docs/broken.lnk'', Inl (DriveAPIError ''Function upload_file failed after 6 attempts''
                                 (Some (DriveAPIError ''Local file not found: docs/broken.lnk'' None)))),
         (''docs/notes.txt'', Inr [(''id'', ''new0''), (''name'', ''notes.txt'')]),
         (''docs/report.txt'', Inr [(''id'', ''new1''), (''name'', ''report.txt'')])])"
    by (simp only: records fst_conv all example_docs(3) docs_outcomes)
  show ?thesis using p1 p2 p3 by simp
qed


end
